theory Spec2Isabelle
  imports Main "HOL-Library.AList"
begin

section \<open>Parsed JSON values\<close>

text \<open>
  The value returned by \<^verbatim>\<open>JSON.parse\<close>. An object is the list of its own properties;
  a property that is absent reads as \<^verbatim>\<open>undefined\<close>, which is \<open>None\<close> here. Only the
  type tag of a number is ever inspected by the router, and a correlation id is compared
  with the integer counter of the manager, so numbers are integers.
\<close>

datatype json =
    JNull
  | JBool bool
  | JNumber int
  | JString string
  | JArray "json list"
  | JObject "(string \<times> json) list"

datatype js_type = TObject | TBoolean | TNumber | TString | TUndefined

fun typeof :: "json option \<Rightarrow> js_type" where
  "typeof None = TUndefined"
| "typeof (Some JNull) = TObject"
| "typeof (Some (JBool _)) = TBoolean"
| "typeof (Some (JNumber _)) = TNumber"
| "typeof (Some (JString _)) = TString"
| "typeof (Some (JArray _)) = TObject"
| "typeof (Some (JObject _)) = TObject"

text \<open>\<^verbatim>\<open>msg[k]\<close> (also \<^verbatim>\<open>msg?.k\<close>) for the property names the code reads:
  none of them exists on an array, a string, a number or a boolean.\<close>

fun get_prop :: "string \<Rightarrow> json \<Rightarrow> json option" where
  "get_prop k (JObject kvs) = map_of kvs k"
| "get_prop k _ = None"

text \<open>\<^verbatim>\<open>k in msg\<close>, used by the code only behind
  \<^verbatim>\<open>typeof msg === "object" && msg !== null\<close>.\<close>

fun has_prop :: "string \<Rightarrow> json \<Rightarrow> bool" where
  "has_prop k (JObject kvs) = (map_of kvs k \<noteq> None)"
| "has_prop k _ = False"

definition is_non_null_object :: "json \<Rightarrow> bool" where
  "is_non_null_object msg = (typeof (Some msg) = TObject \<and> msg \<noteq> JNull)"

fun isArray :: "json option \<Rightarrow> bool" where
  "isArray (Some (JArray _)) = True"
| "isArray _ = False"

section \<open>Message router (\<^verbatim>\<open>_eventTarget.ts\<close>)\<close>

definition isSubscriptionResponse :: "json \<Rightarrow> bool" where
  "isSubscriptionResponse msg =
     (is_non_null_object msg \<and>
      (has_prop ''method'' msg \<or> has_prop ''stream'' msg) \<and>
      \<not> (has_prop ''feed'' msg \<and> typeof (get_prop ''feed'' msg) \<noteq> TUndefined \<and>
         \<not> isArray (get_prop ''feed'' msg)))"

definition isDataMessage :: "json \<Rightarrow> bool" where
  "isDataMessage msg =
     (is_non_null_object msg \<and>
      has_prop ''stream'' msg \<and>
      has_prop ''feed'' msg \<and>
      typeof (get_prop ''stream'' msg) = TString)"

definition isErrorMessage :: "json \<Rightarrow> bool" where
  "isErrorMessage msg =
     (is_non_null_object msg \<and>
      has_prop ''code'' msg \<and>
      has_prop ''message'' msg \<and>
      typeof (get_prop ''code'' msg) = TNumber)"

text \<open>\<^verbatim>\<open>s.replace(/^v1\./, "")\<close>: one leading \<^verbatim>\<open>v1.\<close> is removed.\<close>

definition strip_v1 :: "string \<Rightarrow> string" where
  "strip_v1 s = (if take 3 s = ''v1.'' then drop 3 s else s)"

text \<open>An event dispatched on the event target: its type and its \<^verbatim>\<open>detail\<close>.\<close>

datatype event = Event (ev_type: string) (ev_detail: "json option")

fun string_of :: "json option \<Rightarrow> string" where
  "string_of (Some (JString s)) = s"
| "string_of _ = []"

text \<open>
  The \<^verbatim>\<open>message\<close> listener of \<^verbatim>\<open>GrvtEventTarget\<close>, after \<^verbatim>\<open>JSON.parse\<close> succeeded:
  the event it dispatches, or \<open>None\<close> when the frame falls through every branch.
\<close>

definition GrvtEventTarget_message :: "json \<Rightarrow> event option" where
  "GrvtEventTarget_message msg =
     (if msg = JString ''pong'' \<or>
         (typeof (Some msg) = TObject \<and> get_prop ''type'' msg = Some (JString ''pong''))
      then Some (Event ''pong'' None)
      else if isErrorMessage msg then Some (Event ''error'' (Some msg))
      else if isSubscriptionResponse msg \<and> \<not> isDataMessage msg
      then Some (Event ''subscriptionResponse'' (Some msg))
      else if isDataMessage msg
      then Some (Event (strip_v1 (string_of (get_prop ''stream'' msg))) (Some msg))
      else None)"

definition is_pong :: "json \<Rightarrow> bool" where
  "is_pong msg = (GrvtEventTarget_message msg = Some (Event ''pong'' None))"

section \<open>Subscription keys and stream names (\<^verbatim>\<open>_subscriptionManager.ts\<close>)\<close>

text \<open>\<^verbatim>\<open>const id = `${stream}:${feed}`\<close>\<close>

definition subscription_id :: "string \<Rightarrow> string \<Rightarrow> string" where
  "subscription_id stream feed = stream @ '':'' @ feed"

definition normalizeStreamName :: "string \<Rightarrow> string" where
  "normalizeStreamName stream = (if take 3 stream = ''v1.'' then stream else ''v1.'' @ stream)"

section \<open>HTTP transport (\<^verbatim>\<open>transport/http/mod.ts\<close>)\<close>

text \<open>
  Errors are values. \<^verbatim>\<open>HttpRequestError\<close> extends \<^verbatim>\<open>TransportError\<close>; a plain
  \<^verbatim>\<open>Error\<close> and the \<^verbatim>\<open>TypeError\<close> that \<^verbatim>\<open>fetch\<close> throws on a network failure do not.
  An \<^verbatim>\<open>HttpRequestError\<close> carries the response status (when there is a response), the body
  text and the \<^verbatim>\<open>cause\<close> it wraps. \<^verbatim>\<open>WebSocketRequestError\<close> (\<^verbatim>\<open>_errors.ts\<close>) extends
  \<^verbatim>\<open>TransportError\<close> too; it carries the value passed as its message, which for a
  server-reported error is the \<^verbatim>\<open>message\<close> property of the frame, whatever that is.
\<close>

datatype js_error =
    Error string
  | TypeError string
  | HttpRequestError "nat option" "string option" "js_error option"
  | WebSocketRequestError "json option"

fun instanceof_TransportError :: "js_error \<Rightarrow> bool" where
  "instanceof_TransportError (HttpRequestError _ _ _) = True"
| "instanceof_TransportError (WebSocketRequestError _) = True"
| "instanceof_TransportError _ = False"

record GrvtCookie =
  gravity :: string
  expires :: int

record HttpTransport =
  apiKey :: "string option"
  cookie :: "GrvtCookie option"

definition cookieRefreshBuffer :: int where
  "cookieRefreshBuffer = 5000"

text \<open>\<^verbatim>\<open>!this.apiKey\<close>: true for \<^verbatim>\<open>undefined\<close> and for the empty string.\<close>

definition no_apiKey :: "HttpTransport \<Rightarrow> bool" where
  "no_apiKey t = (apiKey t = None \<or> apiKey t = Some [])"

text \<open>\<^verbatim>\<open>_shouldRefreshCookie\<close>, with \<^verbatim>\<open>Date.now()\<close> as the argument \<open>now\<close>.\<close>

definition shouldRefreshCookie :: "HttpTransport \<Rightarrow> int \<Rightarrow> js_error + bool" where
  "shouldRefreshCookie t now =
     (if no_apiKey t
      then Inl (Error ''Attempting to use authenticated API without API key set'')
      else case cookie t of
             None \<Rightarrow> Inr True
           | Some c \<Rightarrow> Inr (expires c - now \<le> cookieRefreshBuffer))"

text \<open>
  The network is the environment. A call of \<^verbatim>\<open>fetch\<close> is logged; what the login
  round-trip yields after \<^verbatim>\<open>_getCookie\<close> has read the \<^verbatim>\<open>Set-Cookie\<close> header (a cookie,
  or \<^verbatim>\<open>null\<close> on a bad status, a missing header, a missing \<^verbatim>\<open>gravity\<close> value or a thrown
  error) is an argument, and so is the reply to the primary request.
\<close>

datatype fetch_call = LoginFetch | RequestFetch

definition getCookie :: "HttpTransport \<Rightarrow> GrvtCookie option \<Rightarrow> GrvtCookie option \<times> fetch_call list" where
  "getCookie t login = (if no_apiKey t then (None, []) else (login, [LoginFetch]))"

definition refreshCookie ::
  "HttpTransport \<Rightarrow> int \<Rightarrow> GrvtCookie option \<Rightarrow> (js_error + unit) \<times> HttpTransport \<times> fetch_call list" where
  "refreshCookie t now login =
     (case shouldRefreshCookie t now of
        Inl e \<Rightarrow> (Inl e, t, [])
      | Inr False \<Rightarrow> (Inr (), t, [])
      | Inr True \<Rightarrow>
          (case getCookie t login of
             (Some c, fs) \<Rightarrow> (Inr (), t\<lparr>cookie := Some c\<rparr>, fs)
           | (None, fs) \<Rightarrow>
               (Inl (HttpRequestError None (Some ''Failed to obtain authentication cookie'') None),
                t, fs)))"

text \<open>The reply to the primary \<^verbatim>\<open>fetch\<close>: it throws, or there is a response.\<close>

datatype fetch_reply =
    FetchThrows js_error
  | Response (r_ok: bool) (r_status: nat) (r_is_json: bool) (r_text: "string option")
      (r_json: "js_error + json")

text \<open>
  \<^verbatim>\<open>request\<close>, with its result, the transport afterwards and the calls of \<^verbatim>\<open>fetch\<close> it
  made. The \<^verbatim>\<open>catch\<close> block rethrows a \<^verbatim>\<open>TransportError\<close> and wraps everything else.
\<close>

definition rethrow :: "js_error \<Rightarrow> js_error" where
  "rethrow e = (if instanceof_TransportError e then e else HttpRequestError None None (Some e))"

definition request ::
  "HttpTransport \<Rightarrow> int \<Rightarrow> bool \<Rightarrow> GrvtCookie option \<Rightarrow> fetch_reply \<Rightarrow>
     (js_error + json) \<times> HttpTransport \<times> fetch_call list" where
  "request t now requiresAuth login reply =
     (case (if requiresAuth then refreshCookie t now login else (Inr (), t, [])) of
        (Inl e, t', fs) \<Rightarrow> (Inl (rethrow e), t', fs)
      | (Inr _, t', fs) \<Rightarrow>
          (case reply of
             FetchThrows e \<Rightarrow> (Inl (rethrow e), t', fs @ [RequestFetch])
           | Response ok status is_json text body \<Rightarrow>
               if \<not> ok \<or> \<not> is_json
               then (Inl (HttpRequestError (Some status) text None), t', fs @ [RequestFetch])
               else (case body of
                       Inl e \<Rightarrow> (Inl (rethrow e), t', fs @ [RequestFetch])
                     | Inr v \<Rightarrow> (Inr v, t', fs @ [RequestFetch]))))"

text \<open>A sequence of authenticated calls, each awaited before the next: the time of the call,
  what the login endpoint would yield, and the reply to the primary request.\<close>

fun requests ::
  "HttpTransport \<Rightarrow> (int \<times> GrvtCookie option \<times> fetch_reply) list \<Rightarrow> HttpTransport \<times> fetch_call list" where
  "requests t [] = (t, [])"
| "requests t ((now, login, reply) # cs) =
     (case request t now True login reply of
        (_, t', fs) \<Rightarrow> (case requests t' cs of (t'', fs') \<Rightarrow> (t'', fs @ fs')))"

definition logins :: "fetch_call list \<Rightarrow> nat" where
  "logins fs = length (filter (\<lambda>f. f = LoginFetch) fs)"

section \<open>Subscription manager (\<^verbatim>\<open>_subscriptionManager.ts\<close>)\<close>

text \<open>
  A listener is a callback reference; a natural number stands for its identity. The
  \<^verbatim>\<open>listenerWrapper\<close> closure that \<^verbatim>\<open>subscribe\<close> registers on the event target has an
  identity of its own and captures the listener. The \<^verbatim>\<open>unsubscribe\<close> closure captures
  \<^verbatim>\<open>stream\<close>, \<^verbatim>\<open>feed\<close>, \<^verbatim>\<open>id\<close>, \<^verbatim>\<open>listener\<close> and the wrapper.
\<close>

type_synonym listener = nat

type_synonym listenerWrapper = "nat \<times> listener"

record unsubscribe_closure =
  u_stream :: string
  u_feed :: string
  u_id :: string
  u_listener :: listener
  u_wrapper :: listenerWrapper

text \<open>
  The promise of a subscription entry is made from the promise of one
  \<^verbatim>\<open>_sendSubscribe\<close> call: the request id names it, and the flag says whether a
  \<^verbatim>\<open>.catch\<close> handler is chained (as reconnection replay does), which turns a rejection
  into a fulfilment.
\<close>

record SubscriptionState =
  stream :: string
  feed :: string
  listeners :: "(listener \<times> unsubscribe_closure) list"
  promise :: "nat \<times> bool"
  promiseFinished :: bool
  failureController :: nat

datatype ready_state = CONNECTING | OPEN | CLOSING | CLOSED

text \<open>The JSON text passed to \<^verbatim>\<open>socket.send\<close>, as the object that is serialised.\<close>

record frame =
  f_request_id :: nat
  f_stream :: string
  f_feed :: "string list"
  f_method :: string
  f_is_full :: "bool option"

text \<open>The handlers chained on the promise of a request: \<^verbatim>\<open>.catch\<close> aborts a failure
  controller (replay only), \<^verbatim>\<open>.finally\<close> looks the key \<^verbatim>\<open>id\<close> up again.\<close>

record reactions =
  c_key :: string
  c_catch :: "nat option"

datatype outcome = Resolved json | Rejected js_error

text \<open>
  The manager with the two objects it is bound to. \<^verbatim>\<open>_subscriptions\<close> and
  \<^verbatim>\<open>_pendingRequests\<close> are \<^verbatim>\<open>Map\<close>s: association lists in insertion order. The socket is
  its \<^verbatim>\<open>readyState\<close>, the frames sent so far and the one-shot \<^verbatim>\<open>open\<close> listeners that
  \<^verbatim>\<open>_sendSubscribe\<close> registers (each is the frame it will send). The event target is the
  list of registered wrappers under their event type. Timers are the pending
  \<^verbatim>\<open>setTimeout\<close> callbacks with their delay. \<open>outcomes\<close> holds the settled request
  promises, \<open>aborted\<close> the failure controllers that were aborted, \<open>calls\<close> the log of
  listener invocations with the argument passed.

  The counter \<^verbatim>\<open>_requestId\<close> is a JavaScript number; it is a natural number here, which is
  exact below \<open>2^53\<close>.
\<close>

record manager =
  resubscribe :: bool
  subscriptions :: "(string \<times> SubscriptionState) list"
  requestId :: nat
  pendingRequests :: "nat list"
  readyState :: ready_state
  sent :: "frame list"
  openListeners :: "frame list"
  eventListeners :: "(string \<times> listenerWrapper) list"
  timers :: "(nat \<times> nat) list"
  chains :: "(nat \<times> reactions) list"
  outcomes :: "(nat \<times> outcome) list"
  aborted :: "(nat \<times> js_error) list"
  calls :: "(listener \<times> json option) list"
  nextController :: nat
  nextWrapper :: nat

definition WebSocketSubscriptionManager_new :: "bool \<Rightarrow> manager" where
  "WebSocketSubscriptionManager_new resub =
     \<lparr>resubscribe = resub, subscriptions = [], requestId = 0, pendingRequests = [],
      readyState = CONNECTING, sent = [], openListeners = [], eventListeners = [],
      timers = [], chains = [], outcomes = [], aborted = [], calls = [],
      nextController = 0, nextWrapper = 0\<rparr>"

definition subscribe_timeout :: nat where
  "subscribe_timeout = 10000"

text \<open>\<^verbatim>\<open>_sendSubscribe\<close>: the executor of the promise runs at once. The result is the request
  id (which names the promise returned) and the state.\<close>

definition sendSubscribe :: "string \<Rightarrow> string \<Rightarrow> manager \<Rightarrow> nat \<times> manager" where
  "sendSubscribe strm fd m =
     (let rid = requestId m + 1;
          message = \<lparr>f_request_id = rid, f_stream = normalizeStreamName strm, f_feed = [fd],
                     f_method = ''subscribe'', f_is_full = Some True\<rparr>;
          m1 = m\<lparr>requestId := rid,
                 pendingRequests := (if rid \<in> set (pendingRequests m) then pendingRequests m
                                     else pendingRequests m @ [rid])\<rparr>;
          m2 = (if readyState m1 = OPEN then m1\<lparr>sent := sent m1 @ [message]\<rparr>
                else m1\<lparr>openListeners := openListeners m1 @ [message]\<rparr>)
      in (rid, m2\<lparr>timers := timers m2 @ [(rid, subscribe_timeout)]\<rparr>))"

text \<open>\<^verbatim>\<open>_sendUnsubscribe\<close>: called only when the socket is open; nothing is awaited.\<close>

definition sendUnsubscribe :: "string \<Rightarrow> string \<Rightarrow> manager \<Rightarrow> manager" where
  "sendUnsubscribe strm fd m =
     (let rid = requestId m + 1;
          message = \<lparr>f_request_id = rid, f_stream = normalizeStreamName strm, f_feed = [fd],
                     f_method = ''unsubscribe'', f_is_full = None\<rparr>
      in m\<lparr>requestId := rid, sent := sent m @ [message]\<rparr>)"

text \<open>Running an \<^verbatim>\<open>unsubscribe\<close> closure. Its body has no suspension point before the
  frame is sent.\<close>

definition unsubscribe :: "unsubscribe_closure \<Rightarrow> manager \<Rightarrow> manager" where
  "unsubscribe u m =
     (let m1 = m\<lparr>eventListeners := remove1 (u_stream u, u_wrapper u) (eventListeners m)\<rparr>
      in case map_of (subscriptions m1) (u_id u) of
           None \<Rightarrow> m1
         | Some sub \<Rightarrow>
             let sub' = sub\<lparr>listeners := AList.delete (u_listener u) (listeners sub)\<rparr>;
                 m2 = m1\<lparr>subscriptions := AList.update (u_id u) sub' (subscriptions m1)\<rparr>
             in if listeners sub' = []
                then let m3 = m2\<lparr>subscriptions := AList.delete (u_id u) (subscriptions m2)\<rparr>
                     in if readyState m3 = OPEN
                        then sendUnsubscribe (u_stream u) (u_feed u) m3
                        else m3
                else m2)"

text \<open>What \<^verbatim>\<open>subscribe\<close> has in hand when it reaches \<^verbatim>\<open>await subscription.promise\<close>: the
  promise it waits for and the two parts of the handle it will return.\<close>

record subscribe_call =
  awaited :: "nat \<times> bool"
  h_unsubscribe :: unsubscribe_closure
  h_failureSignal :: nat

text \<open>The first half of \<^verbatim>\<open>subscribe\<close>: the entry is created when the key is new.\<close>

definition subscribe_entry :: "string \<Rightarrow> string \<Rightarrow> manager \<Rightarrow> SubscriptionState \<times> manager" where
  "subscribe_entry strm fd m =
     (let key = subscription_id strm fd
      in case map_of (subscriptions m) key of
           Some subscription \<Rightarrow> (subscription, m)
         | None \<Rightarrow>
             let (rid, m1) = sendSubscribe strm fd m;
                 m2 = m1\<lparr>chains := chains m1 @ [(rid, \<lparr>c_key = key, c_catch = None\<rparr>)]\<rparr>;
                 subscription = \<lparr>stream = strm, feed = fd, listeners = [], promise = (rid, False),
                                 promiseFinished = False, failureController = nextController m2\<rparr>
             in (subscription,
                 m2\<lparr>subscriptions := AList.update key subscription (subscriptions m2),
                    nextController := nextController m2 + 1\<rparr>))"

text \<open>
  \<^verbatim>\<open>subscribe\<close> up to its \<^verbatim>\<open>await\<close>. The wrapper closure gets its identity when it is
  registered; a wrapper that is created and dropped leaves no trace.
\<close>

definition subscribe :: "string \<Rightarrow> string \<Rightarrow> listener \<Rightarrow> manager \<Rightarrow> manager \<times> subscribe_call" where
  "subscribe strm fd lsn m =
     (let key = subscription_id strm fd;
          (subscription, m1) = subscribe_entry strm fd m
      in case map_of (listeners subscription) lsn of
           Some u \<Rightarrow>
             (m1, \<lparr>awaited = promise subscription, h_unsubscribe = u,
                   h_failureSignal = failureController subscription\<rparr>)
         | None \<Rightarrow>
             let w = (nextWrapper m1, lsn);
                 u = \<lparr>u_stream = strm, u_feed = fd, u_id = key, u_listener = lsn, u_wrapper = w\<rparr>;
                 subscription' = subscription\<lparr>listeners := AList.update lsn u (listeners subscription)\<rparr>
             in (m1\<lparr>eventListeners := eventListeners m1 @ [(strm, w)],
                    subscriptions := AList.update key subscription' (subscriptions m1),
                    nextWrapper := nextWrapper m1 + 1\<rparr>,
                 \<lparr>awaited = promise subscription, h_unsubscribe = u,
                   h_failureSignal = failureController subscription\<rparr>))"

text \<open>The state of an entry's promise, and how \<^verbatim>\<open>subscribe\<close> completes once it is settled:
  \<open>None\<close> while the caller is still suspended, \<open>Inl\<close> a rejection, \<open>Inr\<close> the handle.\<close>

definition promise_state :: "nat \<times> bool \<Rightarrow> manager \<Rightarrow> (js_error + unit) option" where
  "promise_state p m =
     (case map_of (outcomes m) (fst p) of
        None \<Rightarrow> None
      | Some (Resolved _) \<Rightarrow> Some (Inr ())
      | Some (Rejected e) \<Rightarrow> if snd p then Some (Inr ()) else Some (Inl e))"

definition subscribe_result ::
  "subscribe_call \<Rightarrow> manager \<Rightarrow> (js_error + unsubscribe_closure \<times> nat) option" where
  "subscribe_result c m =
     (case promise_state (awaited c) m of
        None \<Rightarrow> None
      | Some (Inl e) \<Rightarrow> Some (Inl e)
      | Some (Inr _) \<Rightarrow> Some (Inr (h_unsubscribe c, h_failureSignal c)))"

text \<open>\<^verbatim>\<open>AbortController.abort(reason)\<close>: the first reason stays.\<close>

definition abort :: "nat \<Rightarrow> js_error \<Rightarrow> manager \<Rightarrow> manager" where
  "abort ctl e m =
     (if map_of (aborted m) ctl \<noteq> None then m else m\<lparr>aborted := aborted m @ [(ctl, e)]\<rparr>)"

text \<open>
  Settling the promise of request \<open>r\<close> and running the handlers chained on it (they run
  as microtasks, before any other event is handled). Settling a settled promise does
  nothing.
\<close>

definition settle :: "nat \<Rightarrow> outcome \<Rightarrow> manager \<Rightarrow> manager" where
  "settle r out m =
     (if map_of (outcomes m) r \<noteq> None then m
      else let m1 = m\<lparr>outcomes := outcomes m @ [(r, out)]\<rparr>
           in case map_of (chains m1) r of
                None \<Rightarrow> m1
              | Some ch \<Rightarrow>
                  let m2 = (case (out, c_catch ch) of
                              (Rejected e, Some ctl) \<Rightarrow> abort ctl e m1
                            | _ \<Rightarrow> m1)
                  in (case map_of (subscriptions m2) (c_key ch) of
                        None \<Rightarrow> m2
                      | Some sub \<Rightarrow>
                          m2\<lparr>subscriptions :=
                               AList.update (c_key ch) (sub\<lparr>promiseFinished := True\<rparr>)
                                 (subscriptions m2)\<rparr>))"

text \<open>\<^verbatim>\<open>this._pendingRequests.get(v)\<close> for a property value \<open>v\<close>: only a number equal to a
  pending id finds an entry.\<close>

fun pending_get :: "json \<Rightarrow> manager \<Rightarrow> nat option" where
  "pending_get (JNumber n) m =
     (if 0 \<le> n \<and> nat n \<in> set (pendingRequests m) then Some (nat n) else None)"
| "pending_get _ m = None"

text \<open>The two listeners the constructor registers on the event target.\<close>

definition on_subscriptionResponse :: "json \<Rightarrow> manager \<Rightarrow> manager" where
  "on_subscriptionResponse response m =
     (case get_prop ''request_id'' response of
        None \<Rightarrow> m
      | Some v \<Rightarrow>
          (case pending_get v m of
             None \<Rightarrow> m
           | Some r \<Rightarrow>
               settle r (Resolved response)
                 (m\<lparr>pendingRequests := removeAll r (pendingRequests m)\<rparr>)))"

definition on_error :: "json \<Rightarrow> manager \<Rightarrow> manager" where
  "on_error err m =
     (case get_prop ''request_id'' err of
        None \<Rightarrow> m
      | Some v \<Rightarrow>
          (case pending_get v m of
             None \<Rightarrow> m
           | Some r \<Rightarrow>
               settle r (Rejected (WebSocketRequestError (get_prop ''message'' err)))
                 (m\<lparr>pendingRequests := removeAll r (pendingRequests m)\<rparr>)))"

text \<open>A registered wrapper called with an event: it reads \<^verbatim>\<open>event.detail.feed\<close> and calls
  the listener. With no detail the read throws inside the wrapper and nothing is called.\<close>

definition call_wrapper :: "json option \<Rightarrow> manager \<Rightarrow> listenerWrapper \<Rightarrow> manager" where
  "call_wrapper detail m w =
     (case detail of
        None \<Rightarrow> m
      | Some d \<Rightarrow> m\<lparr>calls := calls m @ [(snd w, get_prop ''feed'' d)]\<rparr>)"

definition wrappers_for :: "string \<Rightarrow> manager \<Rightarrow> listenerWrapper list" where
  "wrappers_for name m = map snd (filter (\<lambda>p. fst p = name) (eventListeners m))"

text \<open>\<^verbatim>\<open>dispatchEvent\<close>: the manager's own two listeners were registered first, then the
  wrappers in registration order.\<close>

definition dispatchEvent :: "event \<Rightarrow> manager \<Rightarrow> manager" where
  "dispatchEvent ev m =
     (let m1 = (case ev_detail ev of
                  None \<Rightarrow> m
                | Some d \<Rightarrow>
                    if ev_type ev = ''subscriptionResponse'' then on_subscriptionResponse d m
                    else if ev_type ev = ''error'' then on_error d m
                    else m)
      in foldl (call_wrapper (ev_detail ev)) m1 (wrappers_for (ev_type ev) m))"

definition socket_message :: "json \<Rightarrow> manager \<Rightarrow> manager" where
  "socket_message msg m =
     (case GrvtEventTarget_message msg of None \<Rightarrow> m | Some ev \<Rightarrow> dispatchEvent ev m)"

text \<open>The callback of the \<^verbatim>\<open>setTimeout\<close> set by \<^verbatim>\<open>_sendSubscribe\<close> for request \<open>r\<close>.\<close>

definition timer_fires :: "nat \<Rightarrow> manager \<Rightarrow> manager" where
  "timer_fires r m =
     (if (r, subscribe_timeout) \<notin> set (timers m) then m
      else let m1 = m\<lparr>timers := remove1 (r, subscribe_timeout) (timers m)\<rparr>
           in if r \<in> set (pendingRequests m1)
              then settle r
                     (Rejected (WebSocketRequestError (Some (JString ''Subscription request timed out''))))
                     (m1\<lparr>pendingRequests := removeAll r (pendingRequests m1)\<rparr>)
              else m1)"

text \<open>\<^verbatim>\<open>_handleOpen\<close>: one pass over the entries; replay changes an entry in place.\<close>

definition replay :: "manager \<Rightarrow> string \<Rightarrow> manager" where
  "replay m key =
     (case map_of (subscriptions m) key of
        None \<Rightarrow> m
      | Some subscription \<Rightarrow>
          if promiseFinished subscription
          then let (rid, m1) = sendSubscribe (stream subscription) (feed subscription) m;
                   m2 = m1\<lparr>chains := chains m1 @
                             [(rid, \<lparr>c_key = key, c_catch = Some (failureController subscription)\<rparr>)]\<rparr>
               in m2\<lparr>subscriptions :=
                       AList.update key (subscription\<lparr>promise := (rid, True), promiseFinished := False\<rparr>)
                         (subscriptions m2)\<rparr>
          else m)"

definition handleOpen :: "manager \<Rightarrow> manager" where
  "handleOpen m = (if resubscribe m then foldl replay m (map fst (subscriptions m)) else m)"

text \<open>
  \<^verbatim>\<open>_handleClose\<close>. With resubscribe disabled every \<^verbatim>\<open>unsubscribe\<close> closure of every entry
  is run (a closure removes only its own listener, so the live iteration of the two maps
  visits each closure that was there at the start), then the index is cleared. The
  rejections of the pending requests are then delivered in order.
\<close>

definition handleClose :: "manager \<Rightarrow> manager" where
  "handleClose m =
     (let m1 = (if \<not> resubscribe m
                then (foldl (\<lambda>m u. unsubscribe u m) m
                        (concat (map (\<lambda>e. map snd (listeners (snd e))) (subscriptions m))))
                     \<lparr>subscriptions := []\<rparr>
                else m);
          m2 = m1\<lparr>pendingRequests := []\<rparr>
      in foldl (\<lambda>m r. settle r
                  (Rejected (WebSocketRequestError (Some (JString ''WebSocket connection closed'')))) m)
           m2 (pendingRequests m1))"

text \<open>
  The socket's events. On \<^verbatim>\<open>open\<close> the manager's \<^verbatim>\<open>_handleOpen\<close>, registered by the
  constructor, runs before the one-shot listeners that send the deferred frames. The
  \<^verbatim>\<open>close\<close> and \<^verbatim>\<open>error\<close> events are fired with the socket in state \<^verbatim>\<open>CLOSED\<close>.
\<close>

definition socket_open :: "manager \<Rightarrow> manager" where
  "socket_open m =
     (let m1 = handleOpen (m\<lparr>readyState := OPEN\<rparr>)
      in m1\<lparr>sent := sent m1 @ openListeners m1, openListeners := []\<rparr>)"

definition socket_close :: "manager \<Rightarrow> manager" where
  "socket_close m = handleClose (m\<lparr>readyState := CLOSED\<rparr>)"

definition socket_error :: "manager \<Rightarrow> manager" where
  "socket_error m = handleClose (m\<lparr>readyState := CLOSED\<rparr>)"

text \<open>Everything that can happen to a manager, and a run of such actions.\<close>

datatype action =
    Subscribe string string listener
  | Unsubscribe unsubscribe_closure
  | SocketMessage json
  | SocketOpen
  | SocketClose
  | SocketError
  | TimerFires nat
  | SetResubscribe bool

fun step :: "manager \<Rightarrow> action \<Rightarrow> manager" where
  "step m (Subscribe strm fd lsn) = fst (subscribe strm fd lsn m)"
| "step m (Unsubscribe u) = unsubscribe u m"
| "step m (SocketMessage msg) = socket_message msg m"
| "step m SocketOpen = socket_open m"
| "step m SocketClose = socket_close m"
| "step m SocketError = socket_error m"
| "step m (TimerFires r) = timer_fires r m"
| "step m (SetResubscribe b) = m\<lparr>resubscribe := b\<rparr>"

definition run :: "manager \<Rightarrow> action list \<Rightarrow> manager" where
  "run m as = foldl step m as"

section \<open>WebSocket transport (\<^verbatim>\<open>transport/websocket/mod.ts\<close>)\<close>

text \<open>The options and fields that do not select the URL of the socket.\<close>

record WebSocketTransportOptions =
  o_timeout :: "int option"
  o_resubscribe :: "bool option"
  o_debug :: "bool option"
  o_cookie :: "string option"

record WebSocketTransport =
  timeout :: int
  debug :: bool
  ws_cookie :: "string option"
  subscriptionManager :: manager

definition WebSocketTransport_new :: "WebSocketTransportOptions \<Rightarrow> WebSocketTransport" where
  "WebSocketTransport_new options =
     \<lparr>timeout = (case o_timeout options of None \<Rightarrow> 10000 | Some t \<Rightarrow> t),
      debug = (case o_debug options of None \<Rightarrow> False | Some d \<Rightarrow> d),
      ws_cookie = o_cookie options,
      subscriptionManager =
        WebSocketSubscriptionManager_new
          (case o_resubscribe options of None \<Rightarrow> True | Some b \<Rightarrow> b)\<rparr>"

definition WebSocketTransport_subscribe ::
  "string \<Rightarrow> string \<Rightarrow> listener \<Rightarrow> WebSocketTransport \<Rightarrow> WebSocketTransport \<times> subscribe_call" where
  "WebSocketTransport_subscribe strm fd lsn t =
     (case subscribe strm fd lsn (subscriptionManager t) of
        (m, c) \<Rightarrow> (t\<lparr>subscriptionManager := m\<rparr>, c))"

section \<open>Notions used in the statements\<close>

text \<open>The subscribe frame with a given correlation id; the closure and the entry that a first
  \<^verbatim>\<open>subscribe\<close> for a new key creates.\<close>

definition subscribe_frame :: "nat \<Rightarrow> string \<Rightarrow> string \<Rightarrow> frame" where
  "subscribe_frame rid s f = \<lparr>f_request_id = rid, f_stream = normalizeStreamName s, f_feed = [f],
                     f_method = ''subscribe'', f_is_full = Some True\<rparr>"

definition new_closure :: "string \<Rightarrow> string \<Rightarrow> listener \<Rightarrow> manager \<Rightarrow> unsubscribe_closure" where
  "new_closure s f l m = \<lparr>u_stream = s, u_feed = f, u_id = subscription_id s f, u_listener = l,
      u_wrapper = (nextWrapper m, l)\<rparr>"

definition new_entry :: "string \<Rightarrow> string \<Rightarrow> listener \<Rightarrow> manager \<Rightarrow> SubscriptionState" where
  "new_entry s f l m = \<lparr>stream = s, feed = f, listeners = [(l, new_closure s f l m)],
      promise = (requestId m + 1, False), promiseFinished = False,
      failureController = nextController m\<rparr>"

text \<open>The correlation ids on the frames produced so far, sent or still deferred. The
  invariant of the counter: every id in use is at most \<^verbatim>\<open>_requestId\<close>, no two frames
  carry the same id, and a pending request is not settled yet.\<close>

definition frame_ids :: "manager \<Rightarrow> nat list" where
  "frame_ids m = map f_request_id (sent m @ openListeners m)"

definition ids_fresh :: "manager \<Rightarrow> bool" where
  "ids_fresh m =
     ((\<forall>r \<in> set (pendingRequests m). r \<le> requestId m) \<and>
      (\<forall>r \<in> fst ` set (outcomes m). r \<le> requestId m) \<and>
      (\<forall>r \<in> fst ` set (chains m). r \<le> requestId m) \<and>
      (\<forall>r \<in> set (frame_ids m). r \<le> requestId m) \<and>
      distinct (frame_ids m) \<and>
      (\<forall>r \<in> set (pendingRequests m). map_of (outcomes m) r = None))"

text \<open>The listener calls made while one inbound frame is handled.\<close>

definition invoked_by :: "json \<Rightarrow> manager \<Rightarrow> (listener \<times> json option) list" where
  "invoked_by msg m = drop (length (calls m)) (calls (socket_message msg m))"

text \<open>After a rejected \<^verbatim>\<open>subscribe\<close>: the caller got the rejection and no handle, the entry
  is in the index with the caller's listener, and the wrapper is registered on the event
  target.\<close>

definition bookkeeping_kept :: "string \<Rightarrow> string \<Rightarrow> listener \<Rightarrow> subscribe_call \<Rightarrow> manager \<Rightarrow> bool" where
  "bookkeeping_kept s f l c m =
     ((case subscribe_result c m of Some (Inl e) \<Rightarrow> True | _ \<Rightarrow> False) \<and>
      (case map_of (subscriptions m) (subscription_id s f) of
         None \<Rightarrow> False
       | Some sub \<Rightarrow> map_of (listeners sub) l = Some (h_unsubscribe c)) \<and>
      (s, u_wrapper (h_unsubscribe c)) \<in> set (eventListeners m))"

section \<open>Unfolding the model on concrete inputs\<close>

lemmas router_defs =
  GrvtEventTarget_message_def isErrorMessage_def isSubscriptionResponse_def isDataMessage_def
  is_non_null_object_def is_pong_def strip_v1_def

lemmas manager_defs =
  run_def socket_open_def socket_close_def socket_error_def handleOpen_def handleClose_def
  replay_def subscribe_def subscribe_entry_def sendSubscribe_def sendUnsubscribe_def
  unsubscribe_def settle_def abort_def timer_fires_def socket_message_def dispatchEvent_def
  on_error_def on_subscriptionResponse_def call_wrapper_def wrappers_for_def
  WebSocketSubscriptionManager_new_def subscription_id_def normalizeStreamName_def
  subscribe_timeout_def subscribe_result_def promise_state_def invoked_by_def
  Let_def split_beta

section \<open>The message router: error frames\<close>

lemma error_frame_dispatched:
  assumes "\<not> is_pong msg" and "is_non_null_object msg"
    and "typeof (get_prop ''code'' msg) = TNumber"
    and "typeof (get_prop ''message'' msg) = TString"
  shows "GrvtEventTarget_message msg = Some (Event ''error'' (Some msg))"
  using assms
  by (cases msg)
    (auto simp: GrvtEventTarget_message_def is_pong_def isErrorMessage_def is_non_null_object_def
      split: if_splits)

text \<open>
  C4. A frame that is not a pong is meant to be an error frame exactly when it is an object
  with a numeric \<^verbatim>\<open>code\<close> and a string \<^verbatim>\<open>message\<close>. \<^verbatim>\<open>isErrorMessage\<close> tests the type of
  \<^verbatim>\<open>code\<close> only: the frame \<^verbatim>\<open>{"code": 1, "message": null}\<close>, whose message is not a
  string, is dispatched as an \<^verbatim>\<open>error\<close> event all the same.
\<close>

theorem isErrorMessage_ignores_message_type:
  "typeof (get_prop ''message'' (JObject [(''code'', JNumber 1), (''message'', JNull)])) \<noteq> TString \<and>
   \<not> is_pong (JObject [(''code'', JNumber 1), (''message'', JNull)]) \<and>
   GrvtEventTarget_message (JObject [(''code'', JNumber 1), (''message'', JNull)]) =
     Some (Event ''error'' (Some (JObject [(''code'', JNumber 1), (''message'', JNull)])))"
  by (simp add: GrvtEventTarget_message_def is_pong_def isErrorMessage_def is_non_null_object_def)

section \<open>Subscription keys\<close>

text \<open>Where the key does tell pairs apart: equal keys of two pairs whose stream names hold
  no \<^verbatim>\<open>:\<close> mean equal streams and equal feeds.\<close>

lemma subscription_id_eq_without_colon:
  assumes "CHR '':'' \<notin> set s1" and "CHR '':'' \<notin> set s2"
    and "subscription_id s1 f1 = subscription_id s2 f2"
  shows "s1 = s2 \<and> f1 = f2"
  using assms
proof (induction s1 arbitrary: s2)
  case Nil
  then show ?case by (cases s2) (auto simp: subscription_id_def)
next
  case (Cons a s1)
  then show ?case by (cases s2) (auto simp: subscription_id_def)
qed

text \<open>
  C5. The key of an entry is meant to identify its (stream, feed) pair, so that two distinct
  pairs always have distinct keys and never share an entry; the comment at the key says
  ``unique identifier''. The separator \<^verbatim>\<open>:\<close> is not kept out of either string: the distinct
  pairs \<^verbatim>\<open>("a:b", "c")\<close> and \<^verbatim>\<open>("a", "b:c")\<close> both get the key \<^verbatim>\<open>a:b:c\<close>. On an open socket
  the second \<^verbatim>\<open>subscribe\<close> then finds the entry of the first: the index holds one entry,
  one subscribe frame has been sent, for the first stream only, and the second caller waits
  for the promise of the first request.
\<close>

theorem subscription_id_collision:
  "(''a:b'', ''c'') \<noteq> (''a'', ''b:c'') \<and>
   subscription_id ''a:b'' ''c'' = subscription_id ''a'' ''b:c'' \<and>
   map fst (subscriptions (run (WebSocketSubscriptionManager_new True)
     [SocketOpen, Subscribe ''a:b'' ''c'' 0, Subscribe ''a'' ''b:c'' 1])) = [''a:b:c''] \<and>
   sent (run (WebSocketSubscriptionManager_new True)
     [SocketOpen, Subscribe ''a:b'' ''c'' 0, Subscribe ''a'' ''b:c'' 1]) =
     [\<lparr>f_request_id = 1, f_stream = ''v1.a:b'', f_feed = [''c''],
       f_method = ''subscribe'', f_is_full = Some True\<rparr>] \<and>
   awaited (snd (subscribe ''a'' ''b:c'' 1 (run (WebSocketSubscriptionManager_new True)
     [SocketOpen, Subscribe ''a:b'' ''c'' 0]))) = (1, False)"
  by (simp add: manager_defs)

section \<open>HTTP transport: authentication\<close>

text \<open>
  C6, as amended. An authenticated request made while no API key is configured fails before
  any \<^verbatim>\<open>fetch\<close>: the log of network calls is empty and the transport is unchanged. The
  error that \<^verbatim>\<open>request\<close> rejects with is an \<^verbatim>\<open>HttpRequestError\<close> whose cause is the plain
  \<^verbatim>\<open>Error\<close> raised by the refresh check.
\<close>

theorem request_without_apiKey:
  assumes "no_apiKey t"
  shows "request t now True login reply =
     (Inl (HttpRequestError None None
        (Some (Error ''Attempting to use authenticated API without API key set''))), t, [])"
  using assms
  by (simp add: request_def refreshCookie_def shouldRefreshCookie_def rethrow_def)

theorem request_without_apiKey_witness:
  "no_apiKey \<lparr>apiKey = None, cookie = None\<rparr> \<and>
   request \<lparr>apiKey = None, cookie = None\<rparr> 0 True None (FetchThrows (TypeError ''network'')) =
     (Inl (HttpRequestError None None
        (Some (Error ''Attempting to use authenticated API without API key set''))),
      \<lparr>apiKey = None, cookie = None\<rparr>, [])"
  using request_without_apiKey [of "\<lparr>apiKey = None, cookie = None\<rparr>" 0 None
      "FetchThrows (TypeError ''network'')"]
  by (simp add: no_apiKey_def)

text \<open>C6 as stated fails: the rejection is an instance of \<^verbatim>\<open>TransportError\<close>, the class of
  the transport failures, and it is the very error that a \<^verbatim>\<open>fetch\<close> throwing the same
  \<^verbatim>\<open>Error\<close> gives on an unauthenticated request.\<close>

theorem request_without_apiKey_counterexample:
  "(case fst (request \<lparr>apiKey = None, cookie = None\<rparr> 0 True None (Response True 200 True None (Inr JNull))) of
      Inl e \<Rightarrow> instanceof_TransportError e
    | Inr _ \<Rightarrow> False) \<and>
   fst (request \<lparr>apiKey = None, cookie = None\<rparr> 0 True None (Response True 200 True None (Inr JNull))) =
   fst (request \<lparr>apiKey = None, cookie = None\<rparr> 0 False None
          (FetchThrows (Error ''Attempting to use authenticated API without API key set'')))"
  by (simp add: request_def refreshCookie_def shouldRefreshCookie_def rethrow_def no_apiKey_def)

section \<open>HTTP transport: cookie refresh\<close>

lemma request_cookie_valid:
  assumes "\<not> no_apiKey t" "cookie t = Some c" "cookieRefreshBuffer < expires c - now"
  shows "fst (snd (request t now True login reply)) = t"
    and "logins (snd (snd (request t now True login reply))) = 0"
  using assms
  by (auto simp: request_def refreshCookie_def shouldRefreshCookie_def logins_def
      split: fetch_reply.splits sum.splits)

lemma request_cookie_stale:
  assumes "\<not> no_apiKey t"
    and "cookie t = None \<or> (\<exists>c. cookie t = Some c \<and> expires c - now \<le> cookieRefreshBuffer)"
  shows "logins (snd (snd (request t now True login reply))) = 1"
    and "fst (snd (request t now True login reply)) =
           (case login of None \<Rightarrow> t | Some c' \<Rightarrow> t\<lparr>cookie := Some c'\<rparr>)"
  using assms
  by (auto simp: request_def refreshCookie_def shouldRefreshCookie_def logins_def getCookie_def
      split: fetch_reply.splits sum.splits option.splits)

lemma requests_append:
  "requests t (cs @ ds) =
     (case requests t cs of (t', fs) \<Rightarrow> (case requests t' ds of (t'', fs') \<Rightarrow> (t'', fs @ fs')))"
  by (induction cs arbitrary: t) (auto split: prod.splits)

lemma requests_cookie_valid:
  assumes "\<not> no_apiKey t" "cookie t = Some c"
    and "\<forall>call \<in> set cs. cookieRefreshBuffer < expires c - fst call"
  shows "requests t cs = (t, snd (requests t cs)) \<and> logins (snd (requests t cs)) = 0"
  using assms(3)
proof (induction cs)
  case Nil
  then show ?case by (simp add: logins_def)
next
  case (Cons a cs)
  obtain now login reply where a: "a = (now, login, reply)" by (cases a)
  from Cons.prems a have v: "cookieRefreshBuffer < expires c - now" by simp
  obtain r t' fs1 where r: "request t now True login reply = (r, t', fs1)"
    by (cases "request t now True login reply")
  from request_cookie_valid[OF assms(1,2) v, of login reply] r
  have t': "t' = t" and l1: "logins fs1 = 0" by simp_all
  from Cons have ih: "requests t cs = (t, snd (requests t cs))" "logins (snd (requests t cs)) = 0"
    by simp_all
  from ih(1) obtain fs2 where r2: "requests t cs = (t, fs2)" by blast
  with ih(2) have l2: "logins fs2 = 0" by simp
  show ?case using a r t' l1 r2 l2 by (simp add: logins_def)
qed

lemma no_apiKey_cookie_update [simp]: "no_apiKey (t\<lparr>cookie := c\<rparr>) = no_apiKey t"
  by (simp add: no_apiKey_def)

text \<open>
  C7. A transport with an API key and no cookie yet makes authenticated calls one after
  the other. The first login yields the cookie \<open>ck\<close>. As long as the calls that follow
  are made while the expiry of \<open>ck\<close> is more than the buffer of 5000 ms away, the whole
  sequence performs exactly one login round-trip; one further call made when the expiry is
  within the buffer brings the total to exactly two.
\<close>

theorem cookie_refresh_idempotence:
  assumes "\<not> no_apiKey t" and "cookie t = None"
    and "\<forall>call \<in> set later. cookieRefreshBuffer < expires ck - fst call"
    and "expires ck - now' \<le> cookieRefreshBuffer"
  shows "logins (snd (requests t ((now, Some ck, reply) # later))) = 1 \<and>
         logins (snd (requests t ((now, Some ck, reply) # later @ [(now', login', reply')]))) = 2"
proof -
  let ?t1 = "t\<lparr>cookie := Some ck\<rparr>"
  obtain r fs1 where r: "request t now True (Some ck) reply = (r, ?t1, fs1)" and l1: "logins fs1 = 1"
    using request_cookie_stale[OF assms(1), of now "Some ck" reply] assms(2)
    by (cases "request t now True (Some ck) reply") auto
  have k1: "\<not> no_apiKey ?t1" using assms(1) by simp
  have c1: "cookie ?t1 = Some ck" by simp
  from requests_cookie_valid[OF k1 c1 assms(3)]
  obtain fs2 where r2: "requests ?t1 later = (?t1, fs2)" and l2: "logins fs2 = 0" by auto
  obtain r3 t3 fs3 where r3: "request ?t1 now' True login' reply' = (r3, t3, fs3)"
    by (cases "request ?t1 now' True login' reply'")
  have l3: "logins fs3 = 1"
    using request_cookie_stale(1)[OF k1, of now' login' reply'] assms(4) r3 by simp
  have A: "logins (snd (requests t ((now, Some ck, reply) # later))) = 1"
    using r l1 r2 l2 by (simp add: logins_def)
  have B: "logins (snd (requests t ((now, Some ck, reply) # later @ [(now', login', reply')]))) = 2"
    using r l1 r2 l2 r3 l3 by (simp add: logins_def requests_append)
  from A B show ?thesis by simp
qed

theorem cookie_refresh_idempotence_witness:
  "logins (snd (requests \<lparr>apiKey = Some ''k'', cookie = None\<rparr>
      [(0, Some \<lparr>gravity = ''abc123'', expires = 100000\<rparr>, Response True 200 True None (Inr JNull)),
       (1000, None, Response True 200 True None (Inr JNull)),
       (94999, None, FetchThrows (TypeError ''network''))])) = 1 \<and>
   logins (snd (requests \<lparr>apiKey = Some ''k'', cookie = None\<rparr>
      ([(0, Some \<lparr>gravity = ''abc123'', expires = 100000\<rparr>, Response True 200 True None (Inr JNull)),
        (1000, None, Response True 200 True None (Inr JNull)),
        (94999, None, FetchThrows (TypeError ''network''))] @
       [(95000, None, Response True 200 True None (Inr JNull))]))) = 2"
  using cookie_refresh_idempotence [of "\<lparr>apiKey = Some ''k'', cookie = None\<rparr>"
      "[(1000, None, Response True 200 True None (Inr JNull)),
        (94999, None, FetchThrows (TypeError ''network''))]"
      "\<lparr>gravity = ''abc123'', expires = 100000\<rparr>" 95000 0
      "Response True 200 True None (Inr JNull)" None "Response True 200 True None (Inr JNull)"]
  by (simp add: no_apiKey_def cookieRefreshBuffer_def)

section \<open>Subscription manager: how each operation changes the state\<close>

lemma update_absent: "map_of al k = None \<Longrightarrow> AList.update k v al = al @ [(k, v)]"
  by (induction al) auto

lemma update_append_absent:
  "map_of al k = None \<Longrightarrow> AList.update k v (al @ bl) = al @ AList.update k v bl"
  by (induction al) auto

lemma abort_fields [simp]:
  "requestId (abort c e m) = requestId m"
  "pendingRequests (abort c e m) = pendingRequests m"
  "sent (abort c e m) = sent m"
  "openListeners (abort c e m) = openListeners m"
  "eventListeners (abort c e m) = eventListeners m"
  "chains (abort c e m) = chains m"
  "outcomes (abort c e m) = outcomes m"
  "subscriptions (abort c e m) = subscriptions m"
  "calls (abort c e m) = calls m"
  "readyState (abort c e m) = readyState m"
  "resubscribe (abort c e m) = resubscribe m"
  "timers (abort c e m) = timers m"
  "nextWrapper (abort c e m) = nextWrapper m"
  by (simp_all add: abort_def)

lemma settle_fields [simp]:
  "requestId (settle r out m) = requestId m"
  "pendingRequests (settle r out m) = pendingRequests m"
  "sent (settle r out m) = sent m"
  "openListeners (settle r out m) = openListeners m"
  "eventListeners (settle r out m) = eventListeners m"
  "chains (settle r out m) = chains m"
  "calls (settle r out m) = calls m"
  "readyState (settle r out m) = readyState m"
  "resubscribe (settle r out m) = resubscribe m"
  "timers (settle r out m) = timers m"
  "nextWrapper (settle r out m) = nextWrapper m"
  by (simp_all add: settle_def Let_def split: option.splits outcome.splits)

lemma settle_outcomes:
  "outcomes (settle r out m) = (if map_of (outcomes m) r \<noteq> None then outcomes m else outcomes m @ [(r, out)])"
  by (simp add: settle_def Let_def split: option.splits outcome.splits)

lemma sendSubscribe_fields [simp]:
  "fst (sendSubscribe s f m) = requestId m + 1"
  "requestId (snd (sendSubscribe s f m)) = requestId m + 1"
  "pendingRequests (snd (sendSubscribe s f m)) =
     (if requestId m + 1 \<in> set (pendingRequests m) then pendingRequests m else pendingRequests m @ [requestId m + 1])"
  "eventListeners (snd (sendSubscribe s f m)) = eventListeners m"
  "chains (snd (sendSubscribe s f m)) = chains m"
  "outcomes (snd (sendSubscribe s f m)) = outcomes m"
  "subscriptions (snd (sendSubscribe s f m)) = subscriptions m"
  "calls (snd (sendSubscribe s f m)) = calls m"
  "readyState (snd (sendSubscribe s f m)) = readyState m"
  "resubscribe (snd (sendSubscribe s f m)) = resubscribe m"
  "timers (snd (sendSubscribe s f m)) = timers m @ [(requestId m + 1, subscribe_timeout)]"
  "nextWrapper (snd (sendSubscribe s f m)) = nextWrapper m"
  "nextController (snd (sendSubscribe s f m)) = nextController m"
  "aborted (snd (sendSubscribe s f m)) = aborted m"
  by (simp_all add: sendSubscribe_def Let_def)

lemma sendSubscribe_frames:
  "sent (snd (sendSubscribe s f m)) = (if readyState m = OPEN then sent m @ [subscribe_frame (requestId m + 1) s f] else sent m)"
  "openListeners (snd (sendSubscribe s f m)) = (if readyState m = OPEN then openListeners m else openListeners m @ [subscribe_frame (requestId m + 1) s f])"
  by (simp_all add: sendSubscribe_def Let_def subscribe_frame_def)

section \<open>Subscribing twice\<close>

lemma subscribe_existing:
  assumes "map_of (subscriptions m) (subscription_id s f) = Some sub"
    and "map_of (listeners sub) l = Some u"
  shows "subscribe s f l m =
     (m, \<lparr>awaited = promise sub, h_unsubscribe = u, h_failureSignal = failureController sub\<rparr>)"
  using assms by (simp add: subscribe_def subscribe_entry_def)

lemma subscribe_new:
  assumes "map_of (subscriptions m) (subscription_id s f) = None"
  shows "snd (subscribe s f l m) =
           \<lparr>awaited = (requestId m + 1, False), h_unsubscribe = new_closure s f l m,
            h_failureSignal = nextController m\<rparr>"
    and "subscriptions (fst (subscribe s f l m)) =
           subscriptions m @ [(subscription_id s f, new_entry s f l m)]"
    and "eventListeners (fst (subscribe s f l m)) = eventListeners m @ [(s, (nextWrapper m, l))]"
    and "sent (fst (subscribe s f l m)) = sent (snd (sendSubscribe s f m))"
    and "openListeners (fst (subscribe s f l m)) = openListeners (snd (sendSubscribe s f m))"
    and "requestId (fst (subscribe s f l m)) = requestId m + 1"
    and "pendingRequests (fst (subscribe s f l m)) = pendingRequests (snd (sendSubscribe s f m))"
    and "chains (fst (subscribe s f l m)) =
           chains m @ [(requestId m + 1, \<lparr>c_key = subscription_id s f, c_catch = None\<rparr>)]"
    and "outcomes (fst (subscribe s f l m)) = outcomes m"
    and "timers (fst (subscribe s f l m)) = timers m @ [(requestId m + 1, subscribe_timeout)]"
    and "readyState (fst (subscribe s f l m)) = readyState m"
    and "resubscribe (fst (subscribe s f l m)) = resubscribe m"
    and "calls (fst (subscribe s f l m)) = calls m"
  using assms
  by (simp_all add: subscribe_def subscribe_entry_def Let_def update_absent new_entry_def
      new_closure_def split_beta update_append_absent)

text \<open>
  C2. The key \<open>(s, f)\<close> has no entry yet. \<^verbatim>\<open>subscribe\<close> is called with listener \<open>l\<close>, and
  called again with the same arguments while the first call is suspended. The second call
  changes nothing and waits for the very promise the first call waits for. Together they
  add one entry under the key, holding \<open>l\<close> once; one wrapper for \<open>l\<close> on the event
  target; and one subscribe frame, sent at once on an open socket and deferred to the
  \<^verbatim>\<open>open\<close> event otherwise.
\<close>

theorem subscribe_twice_one_frame:
  assumes "map_of (subscriptions m) (subscription_id s f) = None"
  shows "subscribe s f l (fst (subscribe s f l m)) = subscribe s f l m \<and>
         awaited (snd (subscribe s f l m)) = (requestId m + 1, False) \<and>
         subscriptions (fst (subscribe s f l m)) =
           subscriptions m @ [(subscription_id s f, new_entry s f l m)] \<and>
         eventListeners (fst (subscribe s f l m)) = eventListeners m @ [(s, (nextWrapper m, l))] \<and>
         (if readyState m = OPEN
          then sent (fst (subscribe s f l m)) = sent m @ [subscribe_frame (requestId m + 1) s f] \<and>
               openListeners (fst (subscribe s f l m)) = openListeners m
          else sent (fst (subscribe s f l m)) = sent m \<and>
               openListeners (fst (subscribe s f l m)) =
                 openListeners m @ [subscribe_frame (requestId m + 1) s f])"
proof -
  obtain m1 c1 where s1: "subscribe s f l m = (m1, c1)" by (cases "subscribe s f l m")
  note n = subscribe_new[OF assms, of l, unfolded s1, simplified]
  have look: "map_of (subscriptions m1) (subscription_id s f) = Some (new_entry s f l m)"
    using assms n(2) by (simp add: map_add_Some_iff)
  have again: "subscribe s f l m1 = (m1, c1)"
    using subscribe_existing[OF look, of l "new_closure s f l m"] n(1)
    by (simp add: new_entry_def)
  show ?thesis using s1 again n by (simp add: sendSubscribe_frames)
qed

theorem subscribe_twice_one_frame_witness:
  "subscribe ''ticker.s'' ''BTC_USDT_Perp@500'' 0
     (fst (subscribe ''ticker.s'' ''BTC_USDT_Perp@500'' 0 (WebSocketSubscriptionManager_new True))) =
   subscribe ''ticker.s'' ''BTC_USDT_Perp@500'' 0 (WebSocketSubscriptionManager_new True) \<and>
   map fst (subscriptions (fst (subscribe ''ticker.s'' ''BTC_USDT_Perp@500'' 0
     (WebSocketSubscriptionManager_new True)))) = [''ticker.s:BTC_USDT_Perp@500''] \<and>
   eventListeners (fst (subscribe ''ticker.s'' ''BTC_USDT_Perp@500'' 0
     (WebSocketSubscriptionManager_new True))) = [(''ticker.s'', (0, 0))] \<and>
   sent (fst (subscribe ''ticker.s'' ''BTC_USDT_Perp@500'' 0
     (WebSocketSubscriptionManager_new True))) = [] \<and>
   openListeners (fst (subscribe ''ticker.s'' ''BTC_USDT_Perp@500'' 0
     (WebSocketSubscriptionManager_new True))) =
     [\<lparr>f_request_id = 1, f_stream = ''v1.ticker.s'', f_feed = [''BTC_USDT_Perp@500''],
       f_method = ''subscribe'', f_is_full = Some True\<rparr>]"
proof -
  let ?m = "WebSocketSubscriptionManager_new True"
  have h: "map_of (subscriptions ?m) (subscription_id ''ticker.s'' ''BTC_USDT_Perp@500'') = None"
    by (simp add: WebSocketSubscriptionManager_new_def)
  have e: "subscriptions ?m = []" "eventListeners ?m = []" "nextWrapper ?m = 0" "requestId ?m = 0"
    "readyState ?m = CONNECTING" "sent ?m = []" "openListeners ?m = []"
    by (simp_all add: WebSocketSubscriptionManager_new_def)
  from subscribe_twice_one_frame[OF h, of 0] e
  show ?thesis
    by (simp add: subscribe_frame_def normalizeStreamName_def subscription_id_def)
qed

section \<open>Correlation ids: the invariant of the counter\<close>

lemma ids_fresh_other_fields [simp]:
  "ids_fresh (m\<lparr>subscriptions := a\<rparr>) = ids_fresh m"
  "ids_fresh (m\<lparr>eventListeners := b\<rparr>) = ids_fresh m"
  "ids_fresh (m\<lparr>calls := c\<rparr>) = ids_fresh m"
  "ids_fresh (m\<lparr>timers := d\<rparr>) = ids_fresh m"
  "ids_fresh (m\<lparr>nextWrapper := e\<rparr>) = ids_fresh m"
  "ids_fresh (m\<lparr>nextController := f\<rparr>) = ids_fresh m"
  "ids_fresh (m\<lparr>readyState := g\<rparr>) = ids_fresh m"
  "ids_fresh (m\<lparr>resubscribe := h\<rparr>) = ids_fresh m"
  "ids_fresh (m\<lparr>aborted := i\<rparr>) = ids_fresh m"
  by (simp_all add: ids_fresh_def frame_ids_def)

lemma frame_ids_sendSubscribe:
  "set (frame_ids (snd (sendSubscribe s f m))) = insert (Suc (requestId m)) (set (frame_ids m))"
  "distinct (frame_ids (snd (sendSubscribe s f m))) =
     (Suc (requestId m) \<notin> set (frame_ids m) \<and> distinct (frame_ids m))"
  by (auto simp: frame_ids_def sendSubscribe_frames subscribe_frame_def)

lemma frame_ids_sendUnsubscribe:
  "set (frame_ids (sendUnsubscribe s f m)) = insert (Suc (requestId m)) (set (frame_ids m))"
  "distinct (frame_ids (sendUnsubscribe s f m)) =
     (Suc (requestId m) \<notin> set (frame_ids m) \<and> distinct (frame_ids m))"
  by (auto simp: frame_ids_def sendUnsubscribe_def Let_def)

lemma sendUnsubscribe_fields [simp]:
  "requestId (sendUnsubscribe s f m) = requestId m + 1"
  "pendingRequests (sendUnsubscribe s f m) = pendingRequests m"
  "outcomes (sendUnsubscribe s f m) = outcomes m"
  "chains (sendUnsubscribe s f m) = chains m"
  "subscriptions (sendUnsubscribe s f m) = subscriptions m"
  "eventListeners (sendUnsubscribe s f m) = eventListeners m"
  by (simp_all add: sendUnsubscribe_def Let_def)

lemma frame_ids_updates [simp]:
  "frame_ids (m\<lparr>pendingRequests := a\<rparr>) = frame_ids m"
  "frame_ids (m\<lparr>chains := b\<rparr>) = frame_ids m"
  "frame_ids (m\<lparr>outcomes := c\<rparr>) = frame_ids m"
  "frame_ids (m\<lparr>timers := d\<rparr>) = frame_ids m"
  by (simp_all add: frame_ids_def)

lemma frame_ids_settle [simp]: "frame_ids (settle r out m) = frame_ids m"
  by (simp add: frame_ids_def)

lemma ids_fresh_new: "ids_fresh (WebSocketSubscriptionManager_new b)"
  by (simp add: ids_fresh_def frame_ids_def WebSocketSubscriptionManager_new_def)

lemma map_of_above: "\<forall>r \<in> fst ` set al. r \<le> (n::nat) \<Longrightarrow> n < k \<Longrightarrow> map_of al k = None"
  by (induction al) auto

lemma ids_fresh_sendSubscribe: "ids_fresh m \<Longrightarrow> ids_fresh (snd (sendSubscribe s f m))"
  by (auto simp: ids_fresh_def frame_ids_sendSubscribe map_of_above[where n="requestId m"])

lemma ids_fresh_sendUnsubscribe: "ids_fresh m \<Longrightarrow> ids_fresh (sendUnsubscribe s f m)"
  by (auto simp: ids_fresh_def frame_ids_sendUnsubscribe)

lemma ids_fresh_settle:
  "ids_fresh m \<Longrightarrow> r \<le> requestId m \<Longrightarrow> r \<notin> set (pendingRequests m) \<Longrightarrow>
   ids_fresh (settle r out m)"
  by (auto simp: ids_fresh_def settle_outcomes map_add_def split: option.splits)

lemma ids_fresh_pending_subset:
  "ids_fresh m \<Longrightarrow> set ps \<subseteq> set (pendingRequests m) \<Longrightarrow> ids_fresh (m\<lparr>pendingRequests := ps\<rparr>)"
  by (auto simp: ids_fresh_def)

lemma ids_fresh_chain:
  "ids_fresh m \<Longrightarrow> r \<le> requestId m \<Longrightarrow> ids_fresh (m\<lparr>chains := chains m @ [(r, ch)]\<rparr>)"
  by (auto simp: ids_fresh_def)

lemma ids_fresh_subscribe: "ids_fresh m \<Longrightarrow> ids_fresh (fst (subscribe s f l m))"
  using ids_fresh_chain[OF ids_fresh_sendSubscribe, of m "requestId m + 1" s f]
  by (simp add: subscribe_def subscribe_entry_def Let_def split_beta split: option.splits)

lemma ids_fresh_unsubscribe: "ids_fresh m \<Longrightarrow> ids_fresh (unsubscribe u m)"
  by (simp add: unsubscribe_def Let_def ids_fresh_sendUnsubscribe split: option.splits)

lemma pending_get_Some: "pending_get v m = Some r \<Longrightarrow> r \<in> set (pendingRequests m) \<and> v = JNumber (int r)"
  by (cases v) (auto split: if_splits)

lemma ids_fresh_on_subscriptionResponse: "ids_fresh m \<Longrightarrow> ids_fresh (on_subscriptionResponse d m)"
  by (auto simp: on_subscriptionResponse_def ids_fresh_def settle_outcomes dest!: pending_get_Some split: option.splits)

lemma ids_fresh_on_error: "ids_fresh m \<Longrightarrow> ids_fresh (on_error d m)"
  by (auto simp: on_error_def ids_fresh_def settle_outcomes dest!: pending_get_Some split: option.splits)

lemma foldl_call_wrapper_fields [simp]:
  "requestId (foldl (call_wrapper d) m ws) = requestId m"
  "pendingRequests (foldl (call_wrapper d) m ws) = pendingRequests m"
  "outcomes (foldl (call_wrapper d) m ws) = outcomes m"
  "chains (foldl (call_wrapper d) m ws) = chains m"
  "sent (foldl (call_wrapper d) m ws) = sent m"
  "openListeners (foldl (call_wrapper d) m ws) = openListeners m"
  "subscriptions (foldl (call_wrapper d) m ws) = subscriptions m"
  "eventListeners (foldl (call_wrapper d) m ws) = eventListeners m"
  "timers (foldl (call_wrapper d) m ws) = timers m"
  "readyState (foldl (call_wrapper d) m ws) = readyState m"
  "resubscribe (foldl (call_wrapper d) m ws) = resubscribe m"
  by (induction ws arbitrary: m; simp add: call_wrapper_def split: option.splits)+

lemma foldl_call_wrapper_calls:
  "calls (foldl (call_wrapper d) m ws) =
     calls m @ (case d of None \<Rightarrow> [] | Some v \<Rightarrow> map (\<lambda>w. (snd w, get_prop ''feed'' v)) ws)"
  by (induction ws arbitrary: m) (auto simp: call_wrapper_def split: option.splits)

lemma ids_fresh_foldl_call_wrapper: "ids_fresh (foldl (call_wrapper d) m ws) = ids_fresh m"
  by (simp add: ids_fresh_def frame_ids_def)

lemma ids_fresh_socket_message: "ids_fresh m \<Longrightarrow> ids_fresh (socket_message msg m)"
  by (auto simp: socket_message_def dispatchEvent_def Let_def ids_fresh_foldl_call_wrapper
      ids_fresh_on_error ids_fresh_on_subscriptionResponse split: option.splits)

lemma ids_fresh_timer_fires: "ids_fresh m \<Longrightarrow> ids_fresh (timer_fires r m)"
  by (auto simp: timer_fires_def Let_def ids_fresh_def settle_outcomes)

lemma ids_fresh_replay: "ids_fresh m \<Longrightarrow> ids_fresh (replay m k)"
  using ids_fresh_chain[OF ids_fresh_sendSubscribe, of m "requestId m + 1"]
  by (simp add: replay_def Let_def split_beta split: option.splits)

lemma ids_fresh_foldl_replay: "ids_fresh m \<Longrightarrow> ids_fresh (foldl replay m ks)"
  by (induction ks arbitrary: m) (simp_all add: ids_fresh_replay)

lemma ids_fresh_socket_open: "ids_fresh m \<Longrightarrow> ids_fresh (socket_open m)"
proof -
  assume a: "ids_fresh m"
  have "ids_fresh (handleOpen (m\<lparr>readyState := OPEN\<rparr>))"
    using a by (simp add: handleOpen_def ids_fresh_foldl_replay)
  then show ?thesis
    by (simp add: socket_open_def Let_def ids_fresh_def frame_ids_def)
qed

lemma ids_fresh_foldl_unsubscribe: "ids_fresh m \<Longrightarrow> ids_fresh (foldl (\<lambda>m u. unsubscribe u m) m us)"
  by (induction us arbitrary: m) (simp_all add: ids_fresh_unsubscribe)

lemma ids_fresh_foldl_settle:
  "ids_fresh m \<Longrightarrow> \<forall>r \<in> set rs. r \<le> requestId m \<Longrightarrow> pendingRequests m = [] \<Longrightarrow>
   ids_fresh (foldl (\<lambda>m r. settle r out m) m rs)"
  by (induction rs arbitrary: m) (simp_all add: ids_fresh_settle)

lemma ids_fresh_handleClose: "ids_fresh m \<Longrightarrow> ids_fresh (handleClose m)"
proof -
  assume a: "ids_fresh m"
  define m1 where "m1 = (if \<not> resubscribe m
                then (foldl (\<lambda>m u. unsubscribe u m) m
                        (concat (map (\<lambda>e. map snd (listeners (snd e))) (subscriptions m))))
                     \<lparr>subscriptions := []\<rparr>
                else m)"
  have f1: "ids_fresh m1" using a by (simp add: m1_def ids_fresh_foldl_unsubscribe)
  then have b: "\<forall>r \<in> set (pendingRequests m1). r \<le> requestId (m1\<lparr>pendingRequests := []\<rparr>)"
    by (simp add: ids_fresh_def)
  have f2: "ids_fresh (m1\<lparr>pendingRequests := []\<rparr>)" using f1 by (simp add: ids_fresh_pending_subset)
  show ?thesis
    unfolding handleClose_def Let_def m1_def[symmetric]
    by (rule ids_fresh_foldl_settle[OF f2 b]) simp
qed

lemma ids_fresh_step: "ids_fresh m \<Longrightarrow> ids_fresh (step m a)"
  by (cases a) (simp_all add: ids_fresh_subscribe ids_fresh_unsubscribe ids_fresh_socket_message
      ids_fresh_socket_open socket_close_def socket_error_def ids_fresh_handleClose ids_fresh_timer_fires)

lemma ids_fresh_run: "ids_fresh m \<Longrightarrow> ids_fresh (run m as)"
  unfolding run_def by (induction as arbitrary: m) (simp_all add: ids_fresh_step)

section \<open>Settling a request, dispatching a frame\<close>

lemma settle_lookup:
  "map_of (outcomes (settle r out m)) r' =
     (if r' = r \<and> map_of (outcomes m) r = None then Some out else map_of (outcomes m) r')"
  by (auto simp: settle_outcomes map_add_def split: option.splits)

lemma settle_entry_listeners:
  "map_option listeners (map_of (subscriptions (settle r out m)) k) =
   map_option listeners (map_of (subscriptions m) k)"
  by (auto simp: settle_def Let_def update_conv' split: option.splits outcome.splits)

lemma foldl_settle_fields [simp]:
  "eventListeners (foldl (\<lambda>m r. settle r out m) m rs) = eventListeners m"
  "pendingRequests (foldl (\<lambda>m r. settle r out m) m rs) = pendingRequests m"
  "calls (foldl (\<lambda>m r. settle r out m) m rs) = calls m"
  "requestId (foldl (\<lambda>m r. settle r out m) m rs) = requestId m"
  by (induction rs arbitrary: m; simp)+

lemma foldl_settle_entry_listeners:
  "map_option listeners (map_of (subscriptions (foldl (\<lambda>m r. settle r out m) m rs)) k) =
   map_option listeners (map_of (subscriptions m) k)"
  by (induction rs arbitrary: m) (simp_all add: settle_entry_listeners)

lemma foldl_settle_lookup:
  "map_of (outcomes (foldl (\<lambda>m r. settle r out m) m rs)) r' =
     (if r' \<in> set rs \<and> map_of (outcomes m) r' = None then Some out else map_of (outcomes m) r')"
  by (induction rs arbitrary: m) (auto simp: settle_lookup)

lemma on_error_fields [simp]:
  "calls (on_error d m) = calls m"
  "eventListeners (on_error d m) = eventListeners m"
  "requestId (on_error d m) = requestId m"
  by (simp_all add: on_error_def split: option.splits)

lemma on_subscriptionResponse_fields [simp]:
  "calls (on_subscriptionResponse d m) = calls m"
  "eventListeners (on_subscriptionResponse d m) = eventListeners m"
  "requestId (on_subscriptionResponse d m) = requestId m"
  by (simp_all add: on_subscriptionResponse_def split: option.splits)

lemma invoked_by_eq:
  "invoked_by msg m =
     (case GrvtEventTarget_message msg of
        None \<Rightarrow> []
      | Some ev \<Rightarrow>
          (case ev_detail ev of
             None \<Rightarrow> []
           | Some v \<Rightarrow> map (\<lambda>w. (snd w, get_prop ''feed'' v)) (wrappers_for (ev_type ev) m)))"
  by (simp add: invoked_by_def socket_message_def dispatchEvent_def Let_def
      foldl_call_wrapper_calls wrappers_for_def split: option.splits)

lemma registered_listener_invoked:
  assumes "(s, w) \<in> set (eventListeners m)"
    and "GrvtEventTarget_message msg = Some (Event s (Some msg))"
  shows "(snd w, get_prop ''feed'' msg) \<in> set (invoked_by msg m)"
  using assms by (force simp: invoked_by_eq wrappers_for_def)

lemma socket_message_eventListeners [simp]:
  "eventListeners (socket_message msg m) = eventListeners m"
  by (simp add: socket_message_def dispatchEvent_def Let_def split: option.splits)

lemma error_route:
  "isErrorMessage err \<Longrightarrow> \<not> is_pong err \<Longrightarrow> GrvtEventTarget_message err = Some (Event ''error'' (Some err))"
  by (auto simp: GrvtEventTarget_message_def is_pong_def)

section \<open>Correlation ids: which frame settles which request\<close>

lemma route_forms:
  "GrvtEventTarget_message msg = Some ev \<Longrightarrow> ev = Event ''pong'' None \<or> ev_detail ev = Some msg"
  by (auto simp: GrvtEventTarget_message_def split: if_splits)

lemma on_error_other:
  assumes "get_prop ''request_id'' d \<noteq> Some (JNumber (int r))"
  shows "(r \<in> set (pendingRequests (on_error d m))) = (r \<in> set (pendingRequests m))"
    and "map_of (outcomes (on_error d m)) r = map_of (outcomes m) r"
  using assms
  by (auto simp: on_error_def settle_lookup dest!: pending_get_Some split: option.splits)

lemma on_subscriptionResponse_other:
  assumes "get_prop ''request_id'' d \<noteq> Some (JNumber (int r))"
  shows "(r \<in> set (pendingRequests (on_subscriptionResponse d m))) = (r \<in> set (pendingRequests m))"
    and "map_of (outcomes (on_subscriptionResponse d m)) r = map_of (outcomes m) r"
  using assms
  by (auto simp: on_subscriptionResponse_def settle_lookup dest!: pending_get_Some split: option.splits)

lemma socket_message_pending_outcomes:
  "pendingRequests (socket_message msg m) =
     (if GrvtEventTarget_message msg = Some (Event ''subscriptionResponse'' (Some msg))
      then pendingRequests (on_subscriptionResponse msg m)
      else if GrvtEventTarget_message msg = Some (Event ''error'' (Some msg))
      then pendingRequests (on_error msg m)
      else pendingRequests m)"
  "outcomes (socket_message msg m) =
     (if GrvtEventTarget_message msg = Some (Event ''subscriptionResponse'' (Some msg))
      then outcomes (on_subscriptionResponse msg m)
      else if GrvtEventTarget_message msg = Some (Event ''error'' (Some msg))
      then outcomes (on_error msg m)
      else outcomes m)"
  by (auto simp: socket_message_def dispatchEvent_def Let_def split: option.splits
      dest!: route_forms intro: event.expand)

lemma settled_only_by_own_id:
  assumes "r \<in> set (pendingRequests m)"
    and "r \<notin> set (pendingRequests (socket_message msg m)) \<or>
         map_of (outcomes (socket_message msg m)) r \<noteq> map_of (outcomes m) r"
  shows "(GrvtEventTarget_message msg = Some (Event ''subscriptionResponse'' (Some msg)) \<or>
          GrvtEventTarget_message msg = Some (Event ''error'' (Some msg))) \<and>
         get_prop ''request_id'' msg = Some (JNumber (int r))"
  using assms on_error_other[of msg r m] on_subscriptionResponse_other[of msg r m]
  by (auto simp: socket_message_pending_outcomes split: if_splits)

lemma pending_get_own: "r \<in> set (pendingRequests m) \<Longrightarrow> pending_get (JNumber (int r)) m = Some r"
  by simp

lemma response_resolves_own:
  assumes "ids_fresh m" and "r \<in> set (pendingRequests m)"
    and "get_prop ''request_id'' msg = Some (JNumber (int r))"
    and "GrvtEventTarget_message msg = Some (Event ''subscriptionResponse'' (Some msg))"
  shows "map_of (outcomes (socket_message msg m)) r = Some (Resolved msg)"
    and "r \<notin> set (pendingRequests (socket_message msg m))"
  using assms
  by (simp_all add: socket_message_pending_outcomes on_subscriptionResponse_def settle_lookup
      ids_fresh_def)

lemma error_rejects_own:
  assumes "ids_fresh m" and "r \<in> set (pendingRequests m)"
    and "get_prop ''request_id'' msg = Some (JNumber (int r))"
    and "GrvtEventTarget_message msg = Some (Event ''error'' (Some msg))"
  shows "map_of (outcomes (socket_message msg m)) r =
           Some (Rejected (WebSocketRequestError (get_prop ''message'' msg)))"
    and "r \<notin> set (pendingRequests (socket_message msg m))"
  using assms
  by (simp_all add: socket_message_pending_outcomes on_error_def settle_lookup ids_fresh_def)

text \<open>
  C3. In every state \<open>m\<close> that a new manager reaches by any sequence of subscribe and
  unsubscribe calls, inbound frames, socket events and timeouts: the next request takes
  the id \<^verbatim>\<open>_requestId + 1\<close> and moves the counter there; every id on a frame produced so far
  and every pending id is at most \<^verbatim>\<open>_requestId\<close>, so the next id is new; no two frames
  carry the same id. Handling an inbound frame \<open>msg\<close> takes a pending request \<open>r\<close> out
  of the pending index, or settles it, only when \<open>msg\<close> is dispatched as a
  \<^verbatim>\<open>subscriptionResponse\<close> or \<^verbatim>\<open>error\<close> event and its \<^verbatim>\<open>request_id\<close> is \<open>r\<close>; and such a
  frame resolves \<open>r\<close> with the response, or rejects it with the reported message,
  whatever else is pending.
\<close>

theorem correlation_ids:
  assumes "m = run (WebSocketSubscriptionManager_new b) as"
  shows "fst (sendSubscribe s f m) = requestId m + 1 \<and>
         requestId (snd (sendSubscribe s f m)) = requestId m + 1 \<and>
         requestId (sendUnsubscribe s f m) = requestId m + 1 \<and>
         (\<forall>r \<in> set (frame_ids m) \<union> set (pendingRequests m). r \<le> requestId m) \<and>
         distinct (frame_ids m) \<and>
         (\<forall>r \<in> set (pendingRequests m).
            (r \<notin> set (pendingRequests (socket_message msg m)) \<or>
             map_of (outcomes (socket_message msg m)) r \<noteq> map_of (outcomes m) r \<longrightarrow>
               (GrvtEventTarget_message msg = Some (Event ''subscriptionResponse'' (Some msg)) \<or>
                GrvtEventTarget_message msg = Some (Event ''error'' (Some msg))) \<and>
               get_prop ''request_id'' msg = Some (JNumber (int r))) \<and>
            (get_prop ''request_id'' msg = Some (JNumber (int r)) \<longrightarrow>
               (GrvtEventTarget_message msg = Some (Event ''subscriptionResponse'' (Some msg)) \<longrightarrow>
                  map_of (outcomes (socket_message msg m)) r = Some (Resolved msg) \<and>
                  r \<notin> set (pendingRequests (socket_message msg m))) \<and>
               (GrvtEventTarget_message msg = Some (Event ''error'' (Some msg)) \<longrightarrow>
                  map_of (outcomes (socket_message msg m)) r =
                    Some (Rejected (WebSocketRequestError (get_prop ''message'' msg))) \<and>
                  r \<notin> set (pendingRequests (socket_message msg m)))))"
proof -
  have fresh: "ids_fresh m"
    unfolding assms by (rule ids_fresh_run[OF ids_fresh_new])
  have 1: "fst (sendSubscribe s f m) = requestId m + 1 \<and>
         requestId (snd (sendSubscribe s f m)) = requestId m + 1 \<and>
         requestId (sendUnsubscribe s f m) = requestId m + 1"
    by simp
  have 2: "\<forall>r \<in> set (frame_ids m) \<union> set (pendingRequests m). r \<le> requestId m"
    using fresh by (simp add: ids_fresh_def) blast
  have 3: "distinct (frame_ids m)"
    using fresh by (simp add: ids_fresh_def)
  have 4: "\<forall>r \<in> set (pendingRequests m).
            (r \<notin> set (pendingRequests (socket_message msg m)) \<or>
             map_of (outcomes (socket_message msg m)) r \<noteq> map_of (outcomes m) r \<longrightarrow>
               (GrvtEventTarget_message msg = Some (Event ''subscriptionResponse'' (Some msg)) \<or>
                GrvtEventTarget_message msg = Some (Event ''error'' (Some msg))) \<and>
               get_prop ''request_id'' msg = Some (JNumber (int r))) \<and>
            (get_prop ''request_id'' msg = Some (JNumber (int r)) \<longrightarrow>
               (GrvtEventTarget_message msg = Some (Event ''subscriptionResponse'' (Some msg)) \<longrightarrow>
                  map_of (outcomes (socket_message msg m)) r = Some (Resolved msg) \<and>
                  r \<notin> set (pendingRequests (socket_message msg m))) \<and>
               (GrvtEventTarget_message msg = Some (Event ''error'' (Some msg)) \<longrightarrow>
                  map_of (outcomes (socket_message msg m)) r =
                    Some (Rejected (WebSocketRequestError (get_prop ''message'' msg))) \<and>
                  r \<notin> set (pendingRequests (socket_message msg m))))"
    using settled_only_by_own_id[of _ m msg] response_resolves_own[OF fresh, of _ msg]
      error_rejects_own[OF fresh, of _ msg]
    by blast
  from 1 2 3 4 show ?thesis by blast
qed

theorem correlation_ids_witness:
  "fst (sendSubscribe ''trade'' ''BTC_USDT_Perp@50''
     (run (WebSocketSubscriptionManager_new True)
        [SocketOpen, Subscribe ''ticker.s'' ''a'' 0, Subscribe ''book.s'' ''b'' 1])) = 3 \<and>
   frame_ids (run (WebSocketSubscriptionManager_new True)
        [SocketOpen, Subscribe ''ticker.s'' ''a'' 0, Subscribe ''book.s'' ''b'' 1]) = [1, 2] \<and>
   distinct (frame_ids (run (WebSocketSubscriptionManager_new True)
        [SocketOpen, Subscribe ''ticker.s'' ''a'' 0, Subscribe ''book.s'' ''b'' 1])) \<and>
   pendingRequests (socket_message
      (JObject [(''request_id'', JNumber 2), (''stream'', JString ''v1.book.s''),
                (''method'', JString ''subscribe'')])
      (run (WebSocketSubscriptionManager_new True)
        [SocketOpen, Subscribe ''ticker.s'' ''a'' 0, Subscribe ''book.s'' ''b'' 1])) = [1] \<and>
   map_of (outcomes (socket_message
      (JObject [(''request_id'', JNumber 2), (''stream'', JString ''v1.book.s''),
                (''method'', JString ''subscribe'')])
      (run (WebSocketSubscriptionManager_new True)
        [SocketOpen, Subscribe ''ticker.s'' ''a'' 0, Subscribe ''book.s'' ''b'' 1]))) 2 =
     Some (Resolved (JObject [(''request_id'', JNumber 2), (''stream'', JString ''v1.book.s''),
                (''method'', JString ''subscribe'')]))"
proof -
  let ?m = "run (WebSocketSubscriptionManager_new True)
        [SocketOpen, Subscribe ''ticker.s'' ''a'' 0, Subscribe ''book.s'' ''b'' 1]"
  let ?msg = "JObject [(''request_id'', JNumber 2), (''stream'', JString ''v1.book.s''),
                (''method'', JString ''subscribe'')]"
  have r: "requestId ?m = 2" and p: "pendingRequests ?m = [1, 2]" and fi: "frame_ids ?m = [1, 2]"
    by (simp_all add: manager_defs frame_ids_def)
  have g: "get_prop ''request_id'' ?msg = Some (JNumber (int 2))" by simp
  have route: "GrvtEventTarget_message ?msg = Some (Event ''subscriptionResponse'' (Some ?msg))"
    by (simp add: router_defs)
  have pa: "pendingRequests (socket_message ?msg ?m) = [1]"
    by (simp add: manager_defs router_defs)
  note t = correlation_ids[OF refl, of "''trade''" "''BTC_USDT_Perp@50''" True
      "[SocketOpen, Subscribe ''ticker.s'' ''a'' 0, Subscribe ''book.s'' ''b'' 1]" ?msg]
  from t have 1: "fst (sendSubscribe ''trade'' ''BTC_USDT_Perp@50'' ?m) = 3"
    using r by simp
  from t have 3: "distinct (frame_ids ?m)" by blast
  from t have "\<forall>r \<in> set (pendingRequests ?m).
      get_prop ''request_id'' ?msg = Some (JNumber (int r)) \<longrightarrow>
      GrvtEventTarget_message ?msg = Some (Event ''subscriptionResponse'' (Some ?msg)) \<longrightarrow>
      map_of (outcomes (socket_message ?msg ?m)) r = Some (Resolved ?msg)"
    by blast
  with p g route have 5: "map_of (outcomes (socket_message ?msg ?m)) 2 = Some (Resolved ?msg)"
    by simp
  from 1 fi 3 pa 5 show ?thesis by simp
qed

section \<open>A rejected subscribe request\<close>

lemma kept_after_settle:
  assumes c: "awaited c = (r, False)"
    and out: "map_of (outcomes m') r = Some (Rejected e)"
    and subs: "map_option listeners (map_of (subscriptions m') (subscription_id s f)) = Some [(l, h_unsubscribe c)]"
    and ev: "(s, u_wrapper (h_unsubscribe c)) \<in> set (eventListeners m')"
  shows "bookkeeping_kept s f l c m'"
  using assms
  by (auto simp: bookkeeping_kept_def subscribe_result_def promise_state_def split: option.splits)

lemma rejected_by_timeout:
  assumes fresh: "ids_fresh m"
    and new: "map_of (subscriptions m) (subscription_id s f) = None"
    and sub: "subscribe s f l m = (m1, c)"
  shows "bookkeeping_kept s f l c (timer_fires (requestId m + 1) m1)"
proof -
  note n = subscribe_new[OF new, of l, unfolded sub, simplified]
  have none: "map_of (outcomes m) (Suc (requestId m)) = None"
    using fresh by (auto simp: ids_fresh_def intro!: map_of_above[where n="requestId m"])
  let ?e = "WebSocketRequestError (Some (JString ''Subscription request timed out''))"
  let ?m = "m1\<lparr>timers := remove1 (Suc (requestId m), subscribe_timeout) (timers m1),
               pendingRequests := removeAll (Suc (requestId m)) (pendingRequests m1)\<rparr>"
  have tf: "timer_fires (Suc (requestId m)) m1 = settle (Suc (requestId m)) (Rejected ?e) ?m"
    using n by (simp add: timer_fires_def Let_def)
  show ?thesis
    unfolding Suc_eq_plus1[symmetric] tf
    apply (rule kept_after_settle[where r="Suc (requestId m)" and e="?e"])
    using n none new
       apply (simp_all add: settle_lookup settle_entry_listeners new_entry_def new_closure_def map_add_def)
    done
qed

lemma rejected_by_error:
  assumes fresh: "ids_fresh m"
    and new: "map_of (subscriptions m) (subscription_id s f) = None"
    and sub: "subscribe s f l m = (m1, c)"
    and err: "isErrorMessage err" "\<not> is_pong err"
      "get_prop ''request_id'' err = Some (JNumber (int (requestId m + 1)))"
  shows "bookkeeping_kept s f l c (socket_message err m1)"
proof -
  note n = subscribe_new[OF new, of l, unfolded sub, simplified]
  have none: "map_of (outcomes m) (Suc (requestId m)) = None"
    using fresh by (auto simp: ids_fresh_def intro!: map_of_above[where n="requestId m"])
  let ?e = "WebSocketRequestError (get_prop ''message'' err)"
  let ?m = "m1\<lparr>pendingRequests := removeAll (Suc (requestId m)) (pendingRequests m1)\<rparr>"
  have oe: "on_error err m1 = settle (Suc (requestId m)) (Rejected ?e) ?m"
    using n err(3) by (simp add: on_error_def)
  have subs: "subscriptions (socket_message err m1) = subscriptions (on_error err m1)"
    and outs: "outcomes (socket_message err m1) = outcomes (on_error err m1)"
    using error_route[OF err(1,2)] by (simp_all add: socket_message_def dispatchEvent_def)
  show ?thesis
    apply (rule kept_after_settle[where r="Suc (requestId m)" and e="?e"])
    using n none new
       apply (simp_all add: subs outs oe settle_lookup settle_entry_listeners new_entry_def new_closure_def map_add_def)
    done
qed

lemma rejected_by_close:
  assumes fresh: "ids_fresh m"
    and new: "map_of (subscriptions m) (subscription_id s f) = None"
    and sub: "subscribe s f l m = (m1, c)"
    and resub: "resubscribe m"
  shows "bookkeeping_kept s f l c (socket_close m1)"
proof -
  note n = subscribe_new[OF new, of l, unfolded sub, simplified]
  have none: "map_of (outcomes m) (Suc (requestId m)) = None"
    using fresh by (auto simp: ids_fresh_def intro!: map_of_above[where n="requestId m"])
  let ?e = "WebSocketRequestError (Some (JString ''WebSocket connection closed''))"
  have mem: "Suc (requestId m) \<in> set (pendingRequests m1)" using n by simp
  have sc: "socket_close m1 = foldl (\<lambda>m r. settle r (Rejected ?e) m)
              (m1\<lparr>readyState := CLOSED, pendingRequests := []\<rparr>) (pendingRequests m1)"
    using n resub by (simp add: socket_close_def handleClose_def Let_def)
  show ?thesis
    unfolding sc
    apply (rule kept_after_settle[where r="Suc (requestId m)" and e="?e"])
    using n none mem new
       apply (simp_all add: foldl_settle_lookup foldl_settle_entry_listeners new_entry_def new_closure_def map_add_def)
    done
qed

text \<open>
  C10, as amended. In a state reached by a new manager, \<^verbatim>\<open>subscribe\<close> creates the entry for a
  new key, and its request is then rejected: by its timeout, by a frame dispatched as an
  error that carries its id, or, with the resubscribe flag set, by the close or error event
  of the socket. Then \<^verbatim>\<open>subscribe\<close> rejects, no handle is returned, the entry is still in the
  index with the caller's listener, the wrapper is still registered, and every later frame
  dispatched under the stream name calls the listener with the frame's \<^verbatim>\<open>feed\<close>.
\<close>

theorem rejected_subscribe_keeps_bookkeeping:
  assumes "m = run (WebSocketSubscriptionManager_new b) as"
    and "map_of (subscriptions m) (subscription_id s f) = None"
    and "subscribe s f l m = (m1, c)"
    and "m2 = timer_fires (requestId m + 1) m1 \<or>
         (isErrorMessage err \<and> \<not> is_pong err \<and>
          get_prop ''request_id'' err = Some (JNumber (int (requestId m + 1))) \<and>
          m2 = socket_message err m1) \<or>
         (resubscribe m \<and> (m2 = socket_close m1 \<or> m2 = socket_error m1))"
  shows "bookkeeping_kept s f l c m2 \<and>
         (\<forall>msg. GrvtEventTarget_message msg = Some (Event s (Some msg)) \<longrightarrow>
            (l, get_prop ''feed'' msg) \<in> set (invoked_by msg m2))"
proof -
  have fresh: "ids_fresh m"
    unfolding assms(1) by (rule ids_fresh_run[OF ids_fresh_new])
  have se: "socket_error m1 = socket_close m1"
    by (simp add: socket_error_def socket_close_def)
  have kept: "bookkeeping_kept s f l c m2"
    using assms(4) rejected_by_timeout[OF fresh assms(2,3)]
      rejected_by_error[OF fresh assms(2,3), of err] rejected_by_close[OF fresh assms(2,3)] se
    by auto
  have w: "u_wrapper (h_unsubscribe c) = (nextWrapper m, l)"
    using subscribe_new(1)[OF assms(2), of l] assms(3) by (simp add: new_closure_def)
  from kept have reg: "(s, (nextWrapper m, l)) \<in> set (eventListeners m2)"
    by (simp add: bookkeeping_kept_def w)
  show ?thesis
    using kept registered_listener_invoked[OF reg] by simp
qed

theorem rejected_subscribe_keeps_bookkeeping_witness:
  "bookkeeping_kept ''ticker.s'' ''BTC_USDT_Perp@500'' 0
     (snd (subscribe ''ticker.s'' ''BTC_USDT_Perp@500'' 0
        (run (WebSocketSubscriptionManager_new True) [SocketOpen])))
     (socket_close (fst (subscribe ''ticker.s'' ''BTC_USDT_Perp@500'' 0
        (run (WebSocketSubscriptionManager_new True) [SocketOpen])))) \<and>
   (0, Some (JNumber 7)) \<in> set (invoked_by
      (JObject [(''stream'', JString ''v1.ticker.s''), (''feed'', JNumber 7)])
      (socket_close (fst (subscribe ''ticker.s'' ''BTC_USDT_Perp@500'' 0
        (run (WebSocketSubscriptionManager_new True) [SocketOpen])))))"
proof -
  let ?m = "run (WebSocketSubscriptionManager_new True) [SocketOpen]"
  let ?s = "subscribe ''ticker.s'' ''BTC_USDT_Perp@500'' 0 ?m"
  let ?d = "JObject [(''stream'', JString ''v1.ticker.s''), (''feed'', JNumber 7)]"
  have h2: "map_of (subscriptions ?m) (subscription_id ''ticker.s'' ''BTC_USDT_Perp@500'') = None"
    by (simp add: manager_defs)
  have h3: "?s = (fst ?s, snd ?s)" by simp
  have r: "resubscribe ?m" by (simp add: manager_defs)
  have d: "GrvtEventTarget_message ?d = Some (Event ''ticker.s'' (Some ?d))"
    by (simp add: router_defs)
  have g: "get_prop ''feed'' ?d = Some (JNumber 7)" by simp
  from rejected_subscribe_keeps_bookkeeping[OF refl h2 h3, of "socket_close (fst ?s)"] r d g
  show ?thesis by auto
qed

text \<open>C10 as stated fails for a close with the resubscribe flag off: the cleanup of
  \<^verbatim>\<open>_handleClose\<close> removes the listener and the entry before the rejection is delivered.\<close>

theorem rejected_subscribe_counterexample:
  "subscribe_result
     (snd (subscribe ''ticker.s'' ''BTC_USDT_Perp@500'' 0 (WebSocketSubscriptionManager_new False)))
     (socket_close (fst (subscribe ''ticker.s'' ''BTC_USDT_Perp@500'' 0
        (WebSocketSubscriptionManager_new False)))) =
     Some (Inl (WebSocketRequestError (Some (JString ''WebSocket connection closed'')))) \<and>
   subscriptions (socket_close (fst (subscribe ''ticker.s'' ''BTC_USDT_Perp@500'' 0
        (WebSocketSubscriptionManager_new False)))) = [] \<and>
   eventListeners (socket_close (fst (subscribe ''ticker.s'' ''BTC_USDT_Perp@500'' 0
        (WebSocketSubscriptionManager_new False)))) = [] \<and>
   invoked_by (JObject [(''stream'', JString ''v1.ticker.s''), (''feed'', JNumber 7)])
     (socket_close (fst (subscribe ''ticker.s'' ''BTC_USDT_Perp@500'' 0
        (WebSocketSubscriptionManager_new False)))) = []"
  by (simp add: manager_defs router_defs)

section \<open>Prefixed stream names\<close>

lemma normalize_prefixed:
  "take 3 s \<noteq> ''v1.'' \<Longrightarrow> normalizeStreamName (''v1.'' @ s) = normalizeStreamName s"
  by (simp add: normalizeStreamName_def)

lemma strip_v1_eq_prefixed: "(strip_v1 t = ''v1.'' @ s) = (t = ''v1.v1.'' @ s)"
proof
  assume a: "strip_v1 t = ''v1.'' @ s"
  show "t = ''v1.v1.'' @ s"
  proof (cases "take 3 t = ''v1.''")
    case True
    with a have "drop 3 t = ''v1.'' @ s" by (simp add: strip_v1_def)
    with True append_take_drop_id[of 3 t] show ?thesis by simp
  next
    case False
    with a show ?thesis by (simp add: strip_v1_def)
  qed
next
  assume "t = ''v1.v1.'' @ s"
  then show "strip_v1 t = ''v1.'' @ s" by (simp add: strip_v1_def)
qed

lemma strip_v1_eq_prefixed_chars:
  "(strip_v1 t = CHR ''v'' # CHR ''1'' # CHR ''.'' # s) =
   (t = CHR ''v'' # CHR ''1'' # CHR ''.'' # CHR ''v'' # CHR ''1'' # CHR ''.'' # s)"
  using strip_v1_eq_prefixed[of t s] by simp

lemma wrappers_for_append:
  "eventListeners m' = eventListeners m @ [(p, w)] \<Longrightarrow>
   wrappers_for name m' = wrappers_for name m @ (if name = p then [w] else [])"
  by (simp add: wrappers_for_def)

lemma wrappers_for_subset: "set (wrappers_for name m) \<subseteq> snd ` set (eventListeners m)"
  by (auto simp: wrappers_for_def)

lemma typeof_TString: "typeof v = TString \<Longrightarrow> \<exists>t. v = Some (JString t)"
  by (cases v rule: typeof.cases) simp_all

lemma route_prefixed_name:
  "(GrvtEventTarget_message msg = Some (Event (''v1.'' @ s) (Some msg))) =
   (\<not> is_pong msg \<and> \<not> isErrorMessage msg \<and> isDataMessage msg \<and>
    get_prop ''stream'' msg = Some (JString (''v1.v1.'' @ s)))"
proof (cases "isDataMessage msg")
  case True
  then obtain t where t: "get_prop ''stream'' msg = Some (JString t)"
    using typeof_TString by (auto simp: isDataMessage_def)
  show ?thesis
    using True t
    by (auto simp: GrvtEventTarget_message_def is_pong_def strip_v1_eq_prefixed_chars)
next
  case False
  then show ?thesis
    by (auto simp: GrvtEventTarget_message_def is_pong_def)
qed

text \<open>
  C9, as amended. Let \<open>s\<close> be a stream name without the prefix, and let \<^verbatim>\<open>subscribe\<close> be
  called with \<^verbatim>\<open>v1.\<close>\<open>s\<close> for a new key and a listener \<open>l\<close> that is registered nowhere
  yet. The request made, frame included, is the one made for \<open>s\<close>. The wrapper of \<open>l\<close> is
  registered under the prefixed name. A later inbound frame calls \<open>l\<close> exactly when it is a
  data message whose stream is \<^verbatim>\<open>v1.v1.\<close>\<open>s\<close>; so no data frame with the stream name
  \<^verbatim>\<open>v1.\<close>\<open>s\<close> that the server was asked for, or with \<open>s\<close>, ever calls it.
\<close>

theorem prefixed_stream_subscription:
  assumes "take 3 s \<noteq> ''v1.''"
    and "map_of (subscriptions m) (subscription_id (''v1.'' @ s) f) = None"
    and "l \<notin> snd ` snd ` set (eventListeners m)"
  shows "sendSubscribe (''v1.'' @ s) f m = sendSubscribe s f m \<and>
         eventListeners (fst (subscribe (''v1.'' @ s) f l m)) =
           eventListeners m @ [(''v1.'' @ s, (nextWrapper m, l))] \<and>
         (l \<in> fst ` set (invoked_by msg (fst (subscribe (''v1.'' @ s) f l m))) \<longleftrightarrow>
            \<not> is_pong msg \<and> \<not> isErrorMessage msg \<and> isDataMessage msg \<and>
            get_prop ''stream'' msg = Some (JString (''v1.v1.'' @ s)))"
proof -
  let ?p = "''v1.'' @ s"
  let ?m' = "fst (subscribe ?p f l m)"
  have 1: "sendSubscribe ?p f m = sendSubscribe s f m"
    using normalize_prefixed[OF assms(1)] by (simp add: sendSubscribe_def)
  have 2: "eventListeners ?m' = eventListeners m @ [(?p, (nextWrapper m, l))]"
    by (rule subscribe_new(3)[OF assms(2)])
  have old: "\<And>name. l \<notin> snd ` set (wrappers_for name m)"
    using assms(3) wrappers_for_subset by fastforce
  have w: "\<And>name. (l \<in> snd ` set (wrappers_for name ?m')) = (name = ?p)"
    by (subst wrappers_for_append[OF 2]) (use old in auto)
  have inv: "(l \<in> fst ` set (invoked_by msg ?m')) =
             (GrvtEventTarget_message msg = Some (Event ?p (Some msg)))"
  proof (cases "GrvtEventTarget_message msg")
    case None
    then show ?thesis by (simp add: invoked_by_eq)
  next
    case (Some ev)
    from route_forms[OF Some] show ?thesis
    proof
      assume "ev = Event ''pong'' None"
      with Some show ?thesis by (simp add: invoked_by_eq)
    next
      assume d: "ev_detail ev = Some msg"
      then have ev: "ev = Event (ev_type ev) (Some msg)" by (cases ev) simp
      have "(l \<in> fst ` set (invoked_by msg ?m')) = (l \<in> snd ` set (wrappers_for (ev_type ev) ?m'))"
        using Some d by (force simp: invoked_by_eq)
      also have "\<dots> = (ev_type ev = ?p)" by (rule w)
      also have "\<dots> = (GrvtEventTarget_message msg = Some (Event ?p (Some msg)))"
        using Some ev by (metis event.sel(1) option.inject)
      finally show ?thesis .
    qed
  qed
  show ?thesis using 1 2 inv route_prefixed_name[of msg s] by simp
qed

theorem prefixed_stream_subscription_witness:
  "sendSubscribe (''v1.'' @ ''ticker.s'') ''BTC_USDT_Perp@500'' (WebSocketSubscriptionManager_new True) =
   sendSubscribe ''ticker.s'' ''BTC_USDT_Perp@500'' (WebSocketSubscriptionManager_new True) \<and>
   eventListeners (fst (subscribe (''v1.'' @ ''ticker.s'') ''BTC_USDT_Perp@500'' 0
      (WebSocketSubscriptionManager_new True))) = [(''v1.ticker.s'', (0, 0))] \<and>
   0 \<notin> fst ` set (invoked_by (JObject [(''stream'', JString ''v1.ticker.s''), (''feed'', JNumber 7)])
      (fst (subscribe (''v1.'' @ ''ticker.s'') ''BTC_USDT_Perp@500'' 0
         (WebSocketSubscriptionManager_new True))))"
proof -
  let ?m = "WebSocketSubscriptionManager_new True"
  have h1: "take 3 ''ticker.s'' \<noteq> ''v1.''" by simp
  have h2: "map_of (subscriptions ?m) (subscription_id (''v1.'' @ ''ticker.s'') ''BTC_USDT_Perp@500'') = None"
    by (simp add: WebSocketSubscriptionManager_new_def)
  have h3: "0 \<notin> snd ` snd ` set (eventListeners ?m)"
    by (simp add: WebSocketSubscriptionManager_new_def)
  have e: "eventListeners ?m = []" "nextWrapper ?m = 0"
    by (simp_all add: WebSocketSubscriptionManager_new_def)
  from prefixed_stream_subscription[OF h1 h2 h3,
      of "JObject [(''stream'', JString ''v1.ticker.s''), (''feed'', JNumber 7)]"] e
  show ?thesis by simp
qed

text \<open>C9 as stated fails: a data frame whose stream is \<^verbatim>\<open>v1.v1.ticker.s\<close> is dispatched
  under \<^verbatim>\<open>v1.ticker.s\<close> and calls the listener subscribed under that prefixed name.\<close>

theorem prefixed_stream_counterexample:
  "isDataMessage (JObject [(''stream'', JString ''v1.v1.ticker.s''), (''feed'', JNumber 7)]) \<and>
   invoked_by (JObject [(''stream'', JString ''v1.v1.ticker.s''), (''feed'', JNumber 7)])
     (fst (subscribe ''v1.ticker.s'' ''BTC_USDT_Perp@500'' 0 (WebSocketSubscriptionManager_new True))) =
     [(0, Some (JNumber 7))]"
  by (simp add: manager_defs router_defs)

section \<open>The timeout option of the transport\<close>

text \<open>
  C8. The manager that the transport builds does not depend on the \<^verbatim>\<open>timeout\<close> option, and
  \<^verbatim>\<open>subscribe\<close> on the transport does the same to the manager and returns the same whatever
  the \<^verbatim>\<open>timeout\<close> field holds. The timer that \<^verbatim>\<open>_sendSubscribe\<close> sets has the delay 10000,
  and that timer is the one whose callback times the request out.
\<close>

theorem subscribe_timeout_ignores_option:
  "subscriptionManager (WebSocketTransport_new (options\<lparr>o_timeout := t\<rparr>)) =
     subscriptionManager (WebSocketTransport_new options) \<and>
   subscriptionManager (fst (WebSocketTransport_subscribe s f l (tr\<lparr>timeout := v\<rparr>))) =
     subscriptionManager (fst (WebSocketTransport_subscribe s f l tr)) \<and>
   snd (WebSocketTransport_subscribe s f l (tr\<lparr>timeout := v\<rparr>)) =
     snd (WebSocketTransport_subscribe s f l tr) \<and>
   timers (snd (sendSubscribe s f m)) = timers m @ [(requestId m + 1, 10000)] \<and>
   timers (timer_fires r m) = (if (r, 10000) \<in> set (timers m) then remove1 (r, 10000) (timers m) else timers m)"
  by (simp add: WebSocketTransport_new_def WebSocketTransport_subscribe_def subscribe_timeout_def
      timer_fires_def Let_def split_beta)

section \<open>Replay on re-open\<close>

text \<open>
  C1. Replay on re-open is meant for entries that were established, never for an entry
  whose request was still pending at the disconnect. Here the socket is open, one
  \<^verbatim>\<open>subscribe\<close> is made, and the socket closes before any response: the request is pending
  and the entry unfinished at that moment. The rejection on close runs the \<^verbatim>\<open>finally\<close>
  handler, which sets \<^verbatim>\<open>promiseFinished\<close>; on re-open \<^verbatim>\<open>_handleOpen\<close> sends a second
  subscribe frame for the entry. The same happens to an entry whose request timed out
  before the socket ever opened: on the first \<^verbatim>\<open>open\<close> it is replayed, and the deferred
  frame of the request that timed out is sent after it.
\<close>

theorem replay_of_pending_entry:
  "pendingRequests (run (WebSocketSubscriptionManager_new True)
      [SocketOpen, Subscribe ''ticker.s'' ''BTC_USDT_Perp@500'' 0]) = [1] \<and>
   map (promiseFinished \<circ> snd) (subscriptions (run (WebSocketSubscriptionManager_new True)
      [SocketOpen, Subscribe ''ticker.s'' ''BTC_USDT_Perp@500'' 0])) = [False] \<and>
   sent (run (WebSocketSubscriptionManager_new True)
      [SocketOpen, Subscribe ''ticker.s'' ''BTC_USDT_Perp@500'' 0, SocketClose, SocketOpen]) =
     [\<lparr>f_request_id = 1, f_stream = ''v1.ticker.s'', f_feed = [''BTC_USDT_Perp@500''],
        f_method = ''subscribe'', f_is_full = Some True\<rparr>,
      \<lparr>f_request_id = 2, f_stream = ''v1.ticker.s'', f_feed = [''BTC_USDT_Perp@500''],
        f_method = ''subscribe'', f_is_full = Some True\<rparr>] \<and>
   map f_request_id (sent (run (WebSocketSubscriptionManager_new True)
      [Subscribe ''ticker.s'' ''BTC_USDT_Perp@500'' 0, TimerFires 1, SocketOpen])) = [2, 1]"
  by (simp add: manager_defs router_defs)

end
